theory Spec2Isabelle
  imports Main "HOL-Library.Sublist"
begin

section \<open>Python strings\<close>

text \<open>
  A Python \<open>str\<close> is a sequence of Unicode code points; a code point is a natural number.
  \<open>lit\<close> turns an ASCII literal into its code points.
\<close>

type_synonym pystr = "nat list"

abbreviation (input) lit :: "string \<Rightarrow> pystr" where
  "lit s \<equiv> map of_char s"

abbreviation (input) TAB :: nat where "TAB \<equiv> 9"
abbreviation (input) LF :: nat where "LF \<equiv> 10"
abbreviation (input) CR :: nat where "CR \<equiv> 13"
abbreviation (input) SP :: nat where "SP \<equiv> 32"

text \<open>The code points for which \<open>str.isspace\<close> holds; \<open>str.strip()\<close> removes exactly these.\<close>

definition py_isspace :: "nat \<Rightarrow> bool" where
  "py_isspace c =
     (c \<in> {9, 10, 11, 12, 13, 28, 29, 30, 31, 32, 133, 160, 5760,
            8232, 8233, 8239, 8287, 12288} \<or> (8192 \<le> c \<and> c \<le> 8202))"

text \<open>\<open>s.lstrip\<close>, \<open>s.rstrip\<close> and \<open>s.strip\<close>, for the set of characters given by \<open>P\<close>.\<close>

definition lstrip_by :: "(nat \<Rightarrow> bool) \<Rightarrow> pystr \<Rightarrow> pystr" where
  "lstrip_by P s = dropWhile P s"

definition rstrip_by :: "(nat \<Rightarrow> bool) \<Rightarrow> pystr \<Rightarrow> pystr" where
  "rstrip_by P s = rev (dropWhile P (rev s))"

definition strip_by :: "(nat \<Rightarrow> bool) \<Rightarrow> pystr \<Rightarrow> pystr" where
  "strip_by P s = rstrip_by P (lstrip_by P s)"

definition py_strip :: "pystr \<Rightarrow> pystr" where
  "py_strip s = strip_by py_isspace s"

text \<open>\<open>s.replace(old, new)\<close> for a one-character \<open>old\<close>.\<close>

definition py_replace :: "nat \<Rightarrow> pystr \<Rightarrow> pystr \<Rightarrow> pystr" where
  "py_replace old new s = concat (map (\<lambda>c. if c = old then new else [c]) s)"

text \<open>
  \<open>re.sub\<close> for a pattern \<open>C{m,}\<close> (written \<open>C+\<close> when \<open>m = 1\<close>), \<open>C\<close> a character class and
  \<open>1 \<le> m\<close>: scanning from the left, a maximal run of at least \<open>m\<close> characters of the class
  is replaced by \<open>repl\<close> (the quantifier is greedy, so a match takes the whole run), and
  every other character is copied.
\<close>

function re_sub_rep :: "(nat \<Rightarrow> bool) \<Rightarrow> nat \<Rightarrow> pystr \<Rightarrow> pystr \<Rightarrow> pystr" where
  "re_sub_rep C m repl [] = []"
| "re_sub_rep C m repl (c # cs) =
     (if C c \<and> m \<le> length (takeWhile C (c # cs))
      then repl @ re_sub_rep C m repl (dropWhile C cs)
      else c # re_sub_rep C m repl cs)"
  by pat_completeness auto
termination
  by (relation "measure (\<lambda>(C, m, repl, s). length s)")
     (auto simp: le_imp_less_Suc length_dropWhile_le)

section \<open>Notification parameters\<close>

text \<open>
  The values handed to \<open>sanitize_whatsapp_param\<close>: \<open>None\<close>, a string, or any other object,
  which the function only reads through \<open>str(value)\<close>; \<open>PyObj r\<close> is such an object with
  \<open>str(value) = r\<close> (it equals neither \<open>None\<close> nor the empty string).
\<close>

datatype pyvalue = PyNone | PyStr pystr | PyObj pystr

fun py_str :: "pyvalue \<Rightarrow> pystr" where
  "py_str PyNone = lit ''None''"
| "py_str (PyStr s) = s"
| "py_str (PyObj r) = r"

definition sanitize_whatsapp_param :: "pyvalue \<Rightarrow> pystr" where
  "sanitize_whatsapp_param v =
     (if v = PyNone \<or> v = PyStr [] then lit ''-''
      else
        let text = py_str v;
            text = py_replace TAB [SP] (py_replace CR [SP] (py_replace LF [SP] text));
            text = re_sub_rep (\<lambda>c. c = SP) 5 (lit ''    '') text;
            text = py_strip text
        in if text = [] then lit ''-'' else text)"

section \<open>The interpreter: Unicode tables and the digit limit\<close>

text \<open>
  \<open>str.lower\<close>, \<open>str.upper\<close>, \<open>str.isdigit\<close> and the regular-expression class \<open>\d\<close>
  consult the interpreter's Unicode database. On ASCII their behaviour is fixed and written
  out below; beyond ASCII it is taken from a table \<open>U\<close>, and every theorem holds for every
  table. Lower-casing a character may depend on its context (the final sigma), so
  \<open>uc_lower\<close> receives the characters before and after it; lower- and upper-casing may
  produce several characters. \<open>int_max_str_digits\<close> is the interpreter's limit on the number
  of digits \<open>int\<close> converts (\<open>sys.get_int_max_str_digits()\<close>: 4300 unless configured, 0 for
  no limit).
\<close>

record interpreter =
  uc_lower :: "pystr \<Rightarrow> nat \<Rightarrow> pystr \<Rightarrow> pystr"
  uc_upper :: "nat \<Rightarrow> pystr"
  uc_decimal :: "nat \<Rightarrow> nat option"
  uc_isdigit :: "nat \<Rightarrow> bool"
  int_max_str_digits :: nat

definition is_az :: "nat \<Rightarrow> bool" where
  "is_az c = (97 \<le> c \<and> c \<le> 122)"

definition is_AZ :: "nat \<Rightarrow> bool" where
  "is_AZ c = (65 \<le> c \<and> c \<le> 90)"

definition is_09 :: "nat \<Rightarrow> bool" where
  "is_09 c = (48 \<le> c \<and> c \<le> 57)"

fun lower_from :: "interpreter \<Rightarrow> pystr \<Rightarrow> pystr \<Rightarrow> pystr" where
  "lower_from U seen [] = []"
| "lower_from U seen (c # cs) =
     (if c < 128 then [if is_AZ c then c + 32 else c] else uc_lower U seen c cs)
       @ lower_from U (seen @ [c]) cs"

definition py_lower :: "interpreter \<Rightarrow> pystr \<Rightarrow> pystr" where
  "py_lower U s = lower_from U [] s"

definition py_upper :: "interpreter \<Rightarrow> pystr \<Rightarrow> pystr" where
  "py_upper U s =
     concat (map (\<lambda>c. if c < 128 then [if is_az c then c - 32 else c] else uc_upper U c) s)"

definition py_isdigit :: "interpreter \<Rightarrow> nat \<Rightarrow> bool" where
  "py_isdigit U c = (if c < 128 then is_09 c else uc_isdigit U c)"

text \<open>The class \<open>\d\<close> and the value \<open>int\<close> gives a decimal digit.\<close>

definition digit_value :: "interpreter \<Rightarrow> nat \<Rightarrow> nat option" where
  "digit_value U c = (if c < 128 then (if is_09 c then Some (c - 48) else None) else uc_decimal U c)"

definition re_digit :: "interpreter \<Rightarrow> nat \<Rightarrow> bool" where
  "re_digit U c = (digit_value U c \<noteq> None)"

text \<open>
  An interpreter without case pairs and digits beyond ASCII and with the default digit
  limit, for evaluating the functions on ASCII strings, where the tables are never
  consulted.
\<close>

definition ascii_table :: interpreter where
  "ascii_table = \<lparr>uc_lower = (\<lambda>seen c rest. [c]), uc_upper = (\<lambda>c. [c]),
     uc_decimal = (\<lambda>c. None), uc_isdigit = (\<lambda>c. False), int_max_str_digits = 4300\<rparr>"

section \<open>Template names\<close>

abbreviation (input) US :: nat where "US \<equiv> 95"

text \<open>The class \<open>[a-z0-9_]\<close>.\<close>

definition name_char :: "nat \<Rightarrow> bool" where
  "name_char c = (is_az c \<or> is_09 c \<or> c = US)"

text \<open>The class \<open>[a-z0-9]\<close>.\<close>

definition alnum_char :: "nat \<Rightarrow> bool" where
  "alnum_char c = (is_az c \<or> is_09 c)"

text \<open>The class \<open>[\s\-\.]\<close>; \<open>\s\<close> is the whitespace of \<open>str.isspace\<close>.\<close>

definition separator_char :: "nat \<Rightarrow> bool" where
  "separator_char c = (py_isspace c \<or> c = 45 \<or> c = 46)"

text \<open>
  \<open>re.sub(r'[^a-z0-9_]', '', s)\<close> deletes every character outside the class, which is
  \<open>filter\<close>; \<open>name\<close> is \<open>None\<close> or a string.
\<close>

definition sanitize_template_name :: "interpreter \<Rightarrow> pystr option \<Rightarrow> pystr" where
  "sanitize_template_name U name =
     (case name of
        None \<Rightarrow> []
      | Some nm \<Rightarrow>
          if nm = [] then []
          else
            let sanitized = py_lower U nm;
                sanitized = re_sub_rep separator_char 1 (lit ''_'') sanitized;
                sanitized = filter name_char sanitized;
                sanitized = re_sub_rep (\<lambda>c. c = US) 1 (lit ''_'') sanitized;
                sanitized = strip_by (\<lambda>c. c = US) sanitized;
                sanitized = (if sanitized \<noteq> [] \<and> py_isdigit U (hd sanitized)
                             then lit ''_'' @ sanitized else sanitized);
                sanitized = (if sanitized = []
                             then lit ''template_'' @
                               take 20 (filter alnum_char (py_lower U nm))
                             else sanitized)
            in sanitized)"

text \<open>
  \<open>re.match(r'^[a-z][a-z0-9_]*$', s)\<close>; \<open>$\<close> also matches just before a newline that
  ends the string.
\<close>

definition matches_template_name_re :: "pystr \<Rightarrow> bool" where
  "matches_template_name_re s =
     (case s of
        [] \<Rightarrow> False
      | c # cs \<Rightarrow> is_az c \<and>
          (list_all name_char cs \<or>
           (cs \<noteq> [] \<and> last cs = LF \<and> list_all name_char (butlast cs))))"

section \<open>Errors and fields\<close>

text \<open>
  An exception is a value: \<open>Throw\<close> is \<open>frappe.throw\<close> (a validation error, tagged with its
  title or message), \<open>Raised\<close> an exception raised inside a call into the framework or a
  library, the others are the built-in exceptions of the same names.
\<close>

datatype error = Throw string | KeyError | IndexError | TypeError | AttributeError
  | ValueError | RecursionError | Raised string

text \<open>A document field holds \<open>None\<close> or a string; \<open>if field:\<close> tests that it is neither
  \<open>None\<close> nor empty.\<close>

definition truthy :: "pystr option \<Rightarrow> bool" where
  "truthy v = (v \<noteq> None \<and> v \<noteq> Some [])"

text \<open>Sequencing of computations that may raise.\<close>

definition ebind :: "error + 'a \<Rightarrow> ('a \<Rightarrow> error + 'b) \<Rightarrow> error + 'b" where
  "ebind m f = (case m of Inl e \<Rightarrow> Inl e | Inr x \<Rightarrow> f x)"

text \<open>\<open>[f(v) for v in vs]\<close>, stopping at the first exception.\<close>

fun emap :: "('a \<Rightarrow> error + 'b) \<Rightarrow> 'a list \<Rightarrow> error + 'b list" where
  "emap f [] = Inr []"
| "emap f (v # vs) = ebind (f v) (\<lambda>y. ebind (emap f vs) (\<lambda>ys. Inr (y # ys)))"

section \<open>Template parameters and sample values\<close>

text \<open>
  \<open>re.findall(r'\{\{(\d+)\}\}', text)\<close>. At a position the pattern matches iff the text
  continues with \<open>{{\<close>, a non-empty maximal run of digits and \<open>}}\<close> (a shorter run of digits
  is followed by a digit, never by \<open>}\<close>, so backtracking finds nothing else);
  \<open>match_placeholder\<close> returns the group and the text after the match. \<open>findall\<close> scans
  from the left, continues after a match, and otherwise moves on by one character.
\<close>

definition match_placeholder :: "interpreter \<Rightarrow> pystr \<Rightarrow> (pystr \<times> pystr) option" where
  "match_placeholder U s =
     (if take 2 s = lit ''{{'' then
        let ds = takeWhile (re_digit U) (drop 2 s);
            rest = dropWhile (re_digit U) (drop 2 s)
        in if ds \<noteq> [] \<and> take 2 rest = lit ''}}'' then Some (ds, drop 2 rest) else None
      else None)"

function findall_placeholders :: "interpreter \<Rightarrow> pystr \<Rightarrow> pystr list" where
  "findall_placeholders U [] = []"
| "findall_placeholders U (c # cs) =
     (case match_placeholder U (c # cs) of
        Some (ds, rest) \<Rightarrow> ds # findall_placeholders U rest
      | None \<Rightarrow> findall_placeholders U cs)"
  by pat_completeness auto
termination
proof (relation "measure (\<lambda>(U, s). length s)")
  fix U :: interpreter and c :: nat and cs x2 ds rest
  assume "match_placeholder U (c # cs) = Some x2" and "(ds, rest) = x2"
  then have "rest = drop 2 (dropWhile (re_digit U) (drop 2 (c # cs)))"
    by (auto simp: match_placeholder_def Let_def split: if_splits)
  moreover have "length (dropWhile (re_digit U) (drop 2 (c # cs))) \<le> length (drop 2 (c # cs))"
    by (rule length_dropWhile_le)
  ultimately show "((U, rest), (U, c # cs)) \<in> measure (\<lambda>(U, s). length s)"
    by simp
qed simp_all

text \<open>
  \<open>int(m)\<close> for a group \<open>m\<close> of a match. On a non-empty string of decimal digits \<open>int\<close>
  reads the digits from the left, and raises \<open>ValueError\<close> when the string has more digits
  than the interpreter's limit, if there is one. It also raises \<open>ValueError\<close> on the empty
  string and on a string with another character (apart from a sign, underscores and
  surrounding whitespace, which \<open>int\<close> accepts and a group never contains).
\<close>

definition digit_of :: "interpreter \<Rightarrow> nat \<Rightarrow> nat" where
  "digit_of U d = (case digit_value U d of Some v \<Rightarrow> v | None \<Rightarrow> 0)"

definition exceeds_digit_limit :: "interpreter \<Rightarrow> pystr \<Rightarrow> bool" where
  "exceeds_digit_limit U m = (0 < int_max_str_digits U \<and> int_max_str_digits U < length m)"

definition py_int :: "interpreter \<Rightarrow> pystr \<Rightarrow> error + nat" where
  "py_int U m =
     (if m = [] \<or> \<not> list_all (re_digit U) m then Inl ValueError
      else if exceeds_digit_limit U m then Inl ValueError
      else Inr (foldl (\<lambda>a d. 10 * a + digit_of U d) 0 m))"

text \<open>
  \<open>template\<close> is the field \<open>self.template\<close>: \<open>None\<close> or a string. \<open>max\<close> runs through the
  generator \<open>int(m) for m in matches\<close>, so the first \<open>ValueError\<close> leaves the method.
\<close>

definition get_parameter_count :: "interpreter \<Rightarrow> pystr option \<Rightarrow> error + nat" where
  "get_parameter_count U template =
     (case template of
        None \<Rightarrow> Inr 0
      | Some text \<Rightarrow>
          if text = [] then Inr 0
          else
            let matches = findall_placeholders U text
            in if matches = [] then Inr 0
               else ebind (emap (py_int U) matches) (\<lambda>ns. Inr (Max (set ns))))"

text \<open>
  The placeholders of a text and their numerals, in the words of the specification: a
  placeholder is an occurrence of \<open>{{n}}\<close> for a non-empty string \<open>n\<close> of digits, and the
  numeral \<open>n\<close> denotes the number with these digits in decimal notation, the digit at
  position \<open>i\<close> from the left counting \<open>10 ^ (length n - 1 - i)\<close>.
\<close>

definition placeholders :: "interpreter \<Rightarrow> pystr \<Rightarrow> pystr set" where
  "placeholders U text =
     {ds. ds \<noteq> [] \<and> list_all (re_digit U) ds \<and> sublist (lit ''{{'' @ ds @ lit ''}}'') text}"

definition decimal_value :: "interpreter \<Rightarrow> pystr \<Rightarrow> nat" where
  "decimal_value U ds = (\<Sum>i<length ds. digit_of U (ds ! i) * 10 ^ (length ds - 1 - i))"

definition placeholder_numerals :: "interpreter \<Rightarrow> pystr \<Rightarrow> nat set" where
  "placeholder_numerals U text = decimal_value U ` placeholders U text"

text \<open>\<open>s.split(sep)\<close> for a one-character separator.\<close>

fun py_split :: "nat \<Rightarrow> pystr \<Rightarrow> pystr list" where
  "py_split sep [] = [Nil]"
| "py_split sep (c # cs) =
     (if c = sep then [] # py_split sep cs
      else case py_split sep cs of p # ps \<Rightarrow> (c # p) # ps | [] \<Rightarrow> [c] # Nil)"

text \<open>
  \<open>json.loads\<close> belongs to the standard library; the parser is handed its result:
  a decoding error (\<open>JSONDecodeError\<close>, a \<open>ValueError\<close>), a \<open>RecursionError\<close> (on a text
  nested deeper than the interpreter's recursion limit), a list of values, or a value
  that is not a list. An element of a list is \<open>None\<close>, a string, or another value with the
  text \<open>str\<close> gives for it. The theorems hold for every decoder \<open>loads\<close>.
\<close>

datatype json_result = JsonError | JsonRecursionError | JsonList "pyvalue list" | JsonOther

text \<open>
  \<open>_parse_sample_values(sample_values_str, expected_count)\<close>; the codes 91, 93, 124 and 44
  are \<open>[\<close>, \<open>]\<close>, \<open>|\<close> and \<open>,\<close>. The \<open>try\<close> around \<open>json.loads\<close> catches
  \<open>json.JSONDecodeError\<close> and \<open>ValueError\<close>; a \<open>RecursionError\<close> leaves the method.
\<close>

definition parse_sample_values ::
  "(pystr \<Rightarrow> json_result) \<Rightarrow> pystr option \<Rightarrow> nat option \<Rightarrow> error + pystr list" where
  "parse_sample_values loads sample_values_str expected_count =
     (case sample_values_str of
        None \<Rightarrow> Inr []
      | Some s0 \<Rightarrow>
          if s0 = [] \<or> py_strip s0 = [] then Inr []
          else
            let s = py_strip s0;
                from_json =
                  (if prefix [91] s \<and> suffix [93] s then
                     (case loads s of
                        JsonList parsed \<Rightarrow>
                          Inr (Some [py_strip (py_str v). v \<leftarrow> parsed, py_strip (py_str v) \<noteq> []])
                      | JsonRecursionError \<Rightarrow> Inl RecursionError
                      | _ \<Rightarrow> Inr None)
                   else Inr None)
            in case from_json of
                 Inl e \<Rightarrow> Inl e
               | Inr (Some sample_list) \<Rightarrow> Inr sample_list
               | Inr None \<Rightarrow>
                   let pipe_list = [py_strip p. p \<leftarrow> py_split 124 s, py_strip p \<noteq> []]
                   in if 124 \<in> set s \<and>
                         (expected_count = None \<or> expected_count = Some (length pipe_list))
                      then Inr pipe_list
                      else Inr [py_strip p. p \<leftarrow> py_split 44 s, py_strip p \<noteq> []])"

text \<open>
  What \<open>json.loads\<close> returns for the documents used in the examples:
  \<open>["a", "b"]\<close>, \<open>[" a", ""]\<close>, \<open>[1, null]\<close>, and 100000 opening brackets followed by
  100000 closing brackets.
\<close>

definition json_loads_examples :: "pystr \<Rightarrow> json_result" where
  \<open>json_loads_examples s =
     (if s = lit ''["a", "b"]'' then JsonList [PyStr (lit ''a''), PyStr (lit ''b'')]
      else if s = lit ''[" a", ""]'' then JsonList [PyStr (lit '' a''), PyStr []]
      else if s = lit ''[1, null]'' then JsonList [PyObj (lit ''1''), PyNone]
      else if s = replicate 100000 91 @ replicate 100000 93 then JsonRecursionError
      else JsonError)\<close>

section \<open>Template documents\<close>

text \<open>
  The fields of a \<open>WhatsApp Templates\<close> document that \<open>validate\<close> reads or writes.
  \<open>template_id\<close> is the field \<open>id\<close> (the identifier the provider assigned) and \<open>is_new\<close>
  the result of \<open>self.is_new()\<close>.
\<close>

record template_doc =
  is_new :: bool
  whatsapp_account :: "pystr option"
  language :: "pystr option"
  language_code :: "pystr option"
  template_name :: "pystr option"
  actual_name :: "pystr option"
  category :: "pystr option"
  header_type :: "pystr option"
  header :: "pystr option"
  sample :: "pystr option"
  template :: "pystr option"
  footer :: "pystr option"
  sample_values :: "pystr option"
  template_id :: "pystr option"
  status :: "pystr option"

text \<open>
  A method that makes one remote request ends in one of three ways: an exception before the
  request is made (reading the account settings or a file), an exception of the request,
  or success.
\<close>

datatype remote = Unsent string | Failed string | Done

text \<open>
  What the framework and the provider answer during one \<open>validate\<close>:
  the name of the account \<open>get_whatsapp_account()\<close> returns (a helper of
  \<open>frappe_whatsapp.utils\<close>, which is not among the sources; \<open>None\<close> when there is no default
  account), \<open>self.has_value_changed("language")\<close>, \<open>frappe.db.get_value("Language", _)\<close>,
  and how \<open>get_session_id\<close>, \<open>get_media_id\<close> and \<open>update_template\<close> end.
\<close>

record template_env =
  default_account :: "pystr option"
  language_changed :: bool
  language_code_of :: "pystr option \<Rightarrow> pystr option"
  get_session_id_result :: remote
  get_media_id_result :: remote
  update_template_result :: remote

text \<open>The remote requests and error-log entries a call makes, in order.\<close>

datatype event = UploadSession | UploadMedia | UpdateTemplate "pystr option" | LogError string

type_synonym 'a outcome = "event list \<times> (error + 'a)"

definition pure :: "error + 'a \<Rightarrow> 'a outcome" where
  "pure r = ([], r)"

definition and_then :: "'a outcome \<Rightarrow> ('a \<Rightarrow> 'b outcome) \<Rightarrow> 'b outcome" where
  "and_then m f =
     (case m of
        (es, Inl e) \<Rightarrow> (es, Inl e)
      | (es, Inr x) \<Rightarrow> (case f x of (es', r) \<Rightarrow> (es @ es', r)))"

definition set_whatsapp_account :: "template_env \<Rightarrow> template_doc \<Rightarrow> error + template_doc" where
  "set_whatsapp_account env doc =
     (if \<not> truthy (whatsapp_account doc) then
        (if \<not> truthy (default_account env)
         then Inl (Throw ''Please set a default outgoing WhatsApp Account'')
         else Inr (doc\<lparr>whatsapp_account := default_account env\<rparr>))
      else Inr doc)"

text \<open>Lines 22 to 24 of \<open>validate\<close>: the language code.\<close>

definition set_language_code :: "template_env \<Rightarrow> template_doc \<Rightarrow> template_doc" where
  "set_language_code env doc =
     (if \<not> truthy (language_code doc) \<or> language_changed env then
        let found = language_code_of env (language doc);
            lang_code = (if truthy found then the found else lit ''en'')
        in doc\<lparr>language_code := Some (py_replace 45 (lit ''_'') lang_code)\<rparr>
      else doc)"

text \<open>Lines 26 to 40: the template name.\<close>

definition validate_template_name :: "interpreter \<Rightarrow> template_doc \<Rightarrow> error + template_doc" where
  "validate_template_name U doc =
     (if truthy (template_name doc) then
        let sanitized = sanitize_template_name U (template_name doc);
            plain = py_replace SP (lit ''_'') (py_lower U (the (template_name doc)));
            doc' = (if sanitized \<noteq> plain \<and>
                       (\<not> truthy (actual_name doc) \<or> actual_name doc = Some plain)
                    then doc\<lparr>actual_name := Some sanitized\<rparr> else doc)
        in if \<not> matches_template_name_re sanitized
           then Inl (Throw ''Invalid Template Name'') else Inr doc'
      else Inr doc)"

text \<open>Lines 42 to 44: the sample file of an image or document header is uploaded.\<close>

definition upload_sample :: "template_env \<Rightarrow> template_doc \<Rightarrow> template_doc outcome" where
  "upload_sample env doc =
     (if header_type doc \<in> {Some (lit ''IMAGE''), Some (lit ''DOCUMENT'')} \<and> truthy (sample doc)
      then
        (case get_session_id_result env of
           Unsent e \<Rightarrow> ([], Inl (Raised e))
         | Failed e \<Rightarrow> ([UploadSession], Inl (Raised e))
         | Done \<Rightarrow>
             (case get_media_id_result env of
                Unsent e \<Rightarrow> ([UploadSession], Inl (Raised e))
              | Failed e \<Rightarrow> ([UploadSession, UploadMedia], Inl (Raised e))
              | Done \<Rightarrow> ([UploadSession, UploadMedia], Inr doc)))
      else ([], Inr doc))"

text \<open>Lines 46 to 76: the length of the body.\<close>

definition validate_body_limit :: "template_doc \<Rightarrow> error + template_doc" where
  "validate_body_limit doc =
     (if truthy (template doc) then
        let template_len = length (the (template doc));
            BODY_LIMIT =
              (if category doc \<in> {Some (lit ''AUTHENTICATION''), Some (lit ''OTP'')} then 1024
               else if header_type doc \<in>
                    {Some (lit ''IMAGE''), Some (lit ''VIDEO''), Some (lit ''DOCUMENT'')} then 1024
               else (4096 :: nat))
        in if template_len > BODY_LIMIT
           then Inl (Throw ''Template body exceeds WhatsApp limit'') else Inr doc
      else Inr doc)"

text \<open>Lines 78 to 100: the lengths of header and footer.\<close>

definition validate_header_limit :: "template_doc \<Rightarrow> error + template_doc" where
  "validate_header_limit doc =
     (if header_type doc = Some (lit ''TEXT'') \<and> truthy (header doc) \<and>
         length (the (header doc)) > 60
      then Inl (Throw ''Header text exceeds WhatsApp limit'') else Inr doc)"

definition validate_footer_limit :: "template_doc \<Rightarrow> error + template_doc" where
  "validate_footer_limit doc =
     (if truthy (footer doc) \<and> length (the (footer doc)) > 60
      then Inl (Throw ''Footer text exceeds WhatsApp limit'') else Inr doc)"

text \<open>Lines 102 to 125: the sample values.\<close>

definition validate_sample_values ::
  "interpreter \<Rightarrow> (pystr \<Rightarrow> json_result) \<Rightarrow> template_doc \<Rightarrow> error + template_doc" where
  "validate_sample_values U loads doc =
     (if truthy (template doc) then
        ebind (get_parameter_count U (template doc)) (\<lambda>param_count.
          if param_count > 0 then
            (if \<not> truthy (sample_values doc) then Inl (Throw ''Sample Values Required'')
             else
               ebind (parse_sample_values loads (sample_values doc) (Some param_count))
                 (\<lambda>sample_list.
                    if length sample_list \<noteq> param_count
                    then Inl (Throw ''Sample Values Mismatch'') else Inr doc))
          else Inr doc)
      else Inr doc)"

text \<open>
  \<open>update_template\<close>, as far as its request and its exceptions go (the payload is not
  modelled): an exception before the request, or the request to the provider for the
  template \<open>self.id\<close>, whose failure is raised again by \<open>frappe.throw\<close>.
\<close>

definition update_template :: "template_env \<Rightarrow> template_doc \<Rightarrow> unit outcome" where
  "update_template env doc =
     (case update_template_result env of
        Unsent e \<Rightarrow> ([], Inl (Raised e))
      | Failed e \<Rightarrow> ([UpdateTemplate (template_id doc)], Inl (Throw e))
      | Done \<Rightarrow> ([UpdateTemplate (template_id doc)], Inr ()))"

text \<open>Lines 127 to 141: the update of a template the provider already knows.\<close>

definition update_if_allowed :: "interpreter \<Rightarrow> template_env \<Rightarrow> template_doc \<Rightarrow> template_doc outcome" where
  "update_if_allowed U env doc =
     (if \<not> is_new doc \<and> truthy (template_id doc) then
        (if truthy (status doc) \<and>
            py_upper U (the (status doc)) \<in> {lit ''PENDING'', lit ''APPROVED'', lit ''REJECTED''}
         then ([], Inr doc)
         else
           (case update_template env doc of
              (es, Inl e) \<Rightarrow> (es @ [LogError ''Failed to update WhatsApp template''], Inr doc)
            | (es, Inr u) \<Rightarrow> (es, Inr doc)))
      else ([], Inr doc))"

definition validate ::
  "interpreter \<Rightarrow> (pystr \<Rightarrow> json_result) \<Rightarrow> template_env \<Rightarrow> template_doc \<Rightarrow> template_doc outcome" where
  "validate U loads env doc =
     and_then (pure (set_whatsapp_account env doc)) (\<lambda>doc.
     and_then (pure (Inr (set_language_code env doc))) (\<lambda>doc.
     and_then (pure (validate_template_name U doc)) (\<lambda>doc.
     and_then (upload_sample env doc) (\<lambda>doc.
     and_then (pure (validate_body_limit doc)) (\<lambda>doc.
     and_then (pure (validate_header_limit doc)) (\<lambda>doc.
     and_then (pure (validate_footer_limit doc)) (\<lambda>doc.
     and_then (pure (validate_sample_values U loads doc)) (\<lambda>doc.
     update_if_allowed U env doc))))))))"

section \<open>The webhook\<close>

text \<open>
  The accounts: each \<open>WhatsApp Account\<close> document has a name, which identifies it, and a
  field \<open>webhook_verify_token\<close>. \<open>db_get_value accounts name\<close> is
  \<open>frappe.db.get_value('WhatsApp Account', name, 'webhook_verify_token')\<close>: the field of the
  account with that name, \<open>None\<close> when no account has that name (as for the name
  \<open>None\<close>, which names no account).
\<close>

record whatsapp_account_doc =
  account_name :: pystr
  webhook_verify_token :: "pystr option"

definition db_get_value :: "whatsapp_account_doc list \<Rightarrow> pystr option \<Rightarrow> pystr option" where
  "db_get_value accounts name =
     (case name of
        None \<Rightarrow> None
      | Some nm \<Rightarrow>
          (case find (\<lambda>a. account_name a = nm) accounts of
             None \<Rightarrow> None
           | Some a \<Rightarrow> webhook_verify_token a))"

text \<open>
  \<open>get\<close>: the verification handshake. \<open>form_dict\<close> holds the query parameters. The value
  of \<open>hub.verify_token\<close> is passed to \<open>frappe.db.get_value\<close> as the name of the account. The
  result is the \<open>Response\<close> with its body and status.
\<close>

record response = body :: "pystr option" status_code :: nat

definition get :: "(string \<rightharpoonup> pystr) \<Rightarrow> whatsapp_account_doc list \<Rightarrow> error + response" where
  "get form_dict accounts =
     (let hub_challenge = form_dict ''hub.challenge'';
          verify_token = form_dict ''hub.verify_token'';
          stored_token = db_get_value accounts verify_token
      in if \<not> truthy stored_token
         then Inl (Throw ''No matching WhatsApp account'')
         else if form_dict ''hub.verify_token'' \<noteq> stored_token
         then Inl (Throw ''Verify token does not match'')
         else Inr \<lparr>body = hub_challenge, status_code = 200\<rparr>)"

text \<open>
  An account named \<open>Main\<close> whose verify token is \<open>s3cret\<close>, and the handshake request that
  supplies this token.
\<close>

definition main_account :: whatsapp_account_doc where
  "main_account = \<lparr>account_name = lit ''Main'', webhook_verify_token = Some (lit ''s3cret'')\<rparr>"

definition handshake_request :: "string \<rightharpoonup> pystr" where
  "handshake_request =
     [''hub.mode'' \<mapsto> lit ''subscribe'', ''hub.challenge'' \<mapsto> lit ''1158201444'',
      ''hub.verify_token'' \<mapsto> lit ''s3cret'']"

section \<open>Statements about outcomes\<close>

text \<open>
  \<open>same_core doc d\<close>: \<open>d\<close> agrees with \<open>doc\<close> on the fields the last two steps of \<open>validate\<close>
  read. \<open>outcome_sat E X Q m\<close>: every event of \<open>m\<close> satisfies \<open>E\<close>, an exception of \<open>m\<close>
  satisfies \<open>X\<close>, and a result of \<open>m\<close> satisfies \<open>Q\<close>.
\<close>

definition same_core :: "template_doc \<Rightarrow> template_doc \<Rightarrow> bool" where
  "same_core doc d \<longleftrightarrow> is_new d = is_new doc \<and> template_id d = template_id doc \<and>
     status d = status doc \<and> template d = template doc \<and> sample_values d = sample_values doc"

definition outcome_sat ::
  "(event \<Rightarrow> bool) \<Rightarrow> (error \<Rightarrow> bool) \<Rightarrow> ('a \<Rightarrow> bool) \<Rightarrow> 'a outcome \<Rightarrow> bool" where
  "outcome_sat E X Q m \<longleftrightarrow>
     list_all E (fst m) \<and> (case snd m of Inl e \<Rightarrow> X e | Inr x \<Rightarrow> Q x)"

section \<open>Example documents\<close>

text \<open>
  An environment in which every remote request succeeds, and three saved or new templates:
  an approved one, one whose only placeholder is \<open>{{0}}\<close>, and one with two parameters and
  two sample values.
\<close>

definition example_env :: template_env where
  "example_env = \<lparr>default_account = Some (lit ''main''), language_changed = False,
     language_code_of = (\<lambda>l. None), get_session_id_result = Done,
     get_media_id_result = Done, update_template_result = Done\<rparr>"

definition approved_doc :: template_doc where
  "approved_doc = \<lparr>is_new = False, whatsapp_account = Some (lit ''main''),
     language = Some (lit ''en''), language_code = Some (lit ''en''),
     template_name = Some (lit ''order_update''), actual_name = Some (lit ''order_update''),
     category = Some (lit ''UTILITY''), header_type = None, header = None, sample = None,
     template = Some (lit ''Your order has shipped''), footer = None, sample_values = None,
     template_id = Some (lit ''1234567890''), status = Some (lit ''APPROVED'')\<rparr>"

definition zero_placeholder_doc :: template_doc where
  "zero_placeholder_doc = \<lparr>is_new = True, whatsapp_account = Some (lit ''main''),
     language = Some (lit ''en''), language_code = Some (lit ''en''),
     template_name = Some (lit ''greeting''), actual_name = Some (lit ''greeting''),
     category = Some (lit ''MARKETING''), header_type = None, header = None, sample = None,
     template = Some (lit ''Hello {{0}}''), footer = None, sample_values = None,
     template_id = None, status = None\<rparr>"

definition two_param_doc :: template_doc where
  "two_param_doc = \<lparr>is_new = True, whatsapp_account = Some (lit ''main''),
     language = Some (lit ''en''), language_code = Some (lit ''en''),
     template_name = Some (lit ''greeting''), actual_name = Some (lit ''greeting''),
     category = Some (lit ''MARKETING''), header_type = None, header = None, sample = None,
     template = Some (lit ''Hi {{1}}, {{2}}''), footer = None,
     sample_values = Some (lit ''Ann|today''), template_id = None, status = None\<rparr>"

section \<open>JSON values\<close>

text \<open>
  The values of a decoded JSON document, which are also the values of the payloads the
  notification builds: \<open>None\<close>, booleans, numbers, strings, lists and dicts. A dict is given
  by its items; the first item of a key counts.
\<close>

datatype json = JNull | JBool bool | JNum int | JStr pystr | JList "json list"
  | JDict "(pystr \<times> json) list"

text \<open>The truth value of \<open>if x:\<close>.\<close>

fun py_truth :: "json \<Rightarrow> bool" where
  "py_truth JNull = False"
| "py_truth (JBool b) = b"
| "py_truth (JNum n) = (n \<noteq> 0)"
| "py_truth (JStr s) = (s \<noteq> [])"
| "py_truth (JList xs) = (xs \<noteq> [])"
| "py_truth (JDict kvs) = (kvs \<noteq> [])"

text \<open>\<open>x[k]\<close> for a string \<open>k\<close>: only a dict has string keys.\<close>

fun py_item :: "json \<Rightarrow> pystr \<Rightarrow> error + json" where
  "py_item (JDict kvs) k = (case map_of kvs k of Some v \<Rightarrow> Inr v | None \<Rightarrow> Inl KeyError)"
| "py_item x k = Inl TypeError"

text \<open>
  \<open>x[0]\<close>: the first element of a list, the first character of a string, a \<open>KeyError\<close> on
  a dict (the keys of a decoded JSON object are strings).
\<close>

fun py_first :: "json \<Rightarrow> error + json" where
  "py_first (JList []) = Inl IndexError"
| "py_first (JList (x # xs)) = Inr x"
| "py_first (JStr []) = Inl IndexError"
| "py_first (JStr (c # cs)) = Inr (JStr [c])"
| "py_first (JDict kvs) = Inl KeyError"
| "py_first x = Inl TypeError"

text \<open>\<open>x.get(k, default)\<close>: only a dict has the method.\<close>

fun py_get :: "json \<Rightarrow> pystr \<Rightarrow> json \<Rightarrow> error + json" where
  "py_get (JDict kvs) k d = (case map_of kvs k of Some v \<Rightarrow> Inr v | None \<Rightarrow> Inr d)"
| "py_get x k d = Inl AttributeError"

text \<open>
  The values \<open>for v in x\<close> runs through: the elements of a list, the keys of a dict, the
  characters of a string; the other values are not iterable.
\<close>

fun py_iter :: "json \<Rightarrow> error + json list" where
  "py_iter (JList xs) = Inr xs"
| "py_iter (JDict kvs) = Inr (map (\<lambda>(k, v). JStr k) kvs)"
| "py_iter (JStr s) = Inr (map (\<lambda>c. JStr [c]) s)"
| "py_iter x = Inl TypeError"

section \<open>Sending a notification\<close>

text \<open>
  \<open>make_post_request\<close> belongs to the framework (\<open>frappe.integrations.utils\<close>) and works
  on a \<open>requests\<close> session. The request either raises without a response, or a response
  arrives; the framework stores it in \<open>frappe.flags.integration_request\<close>, raises for a
  status from 400 to 599 (\<open>raise_for_status\<close>), and otherwise returns the decoded body when
  the content type is JSON, and else the text, \<open>None\<close> or a parsed query string
  (a dict of lists of strings). The truth value of a response is its \<open>ok\<close>:
  the status is not an error status.
\<close>

datatype non_json = RText pystr | RNone | RQuery "(pystr \<times> pystr list) list"

fun json_of_non_json :: "non_json \<Rightarrow> json" where
  "json_of_non_json (RText s) = JStr s"
| "json_of_non_json RNone = JNull"
| "json_of_non_json (RQuery q) = JDict (map (\<lambda>(k, vs). (k, JList (map JStr vs))) q)"

record http_response =
  http_status :: nat
  json_content :: bool
  json_body :: "json option"
  other_return :: non_json

datatype exchange = NoResponse string | Responded http_response

definition response_ok :: "http_response \<Rightarrow> bool" where
  "response_ok r = (\<not> (400 \<le> http_status r \<and> http_status r < 600))"

text \<open>\<open>r.json()\<close>; \<open>json_body r = None\<close> when the body is not JSON.\<close>

definition response_json :: "http_response \<Rightarrow> error + json" where
  "response_json r = (case json_body r of Some j \<Rightarrow> Inr j | None \<Rightarrow> Inl (Raised ''JSONDecodeError''))"

text \<open>The new value of \<open>frappe.flags.integration_request\<close> and the result of the call.\<close>

definition make_post_request ::
  "exchange \<Rightarrow> http_response option \<Rightarrow> http_response option \<times> (error + json)" where
  "make_post_request x flag =
     (case x of
        NoResponse e \<Rightarrow> (flag, Inl (Raised e))
      | Responded r \<Rightarrow>
          (Some r,
           if \<not> response_ok r then Inl (Raised ''HTTPError'')
           else if json_content r then response_json r
           else Inr (json_of_non_json (other_return r))))"

text \<open>
  The fields of the notification that \<open>notify\<close> reads, the source document it is sent for,
  and what the framework answers: the account \<open>frappe.get_doc("WhatsApp Account", name)\<close>
  finds (\<open>None\<close> when it raises), the default outgoing account of \<open>get_whatsapp_account\<close>
  (a helper of \<open>frappe_whatsapp.utils\<close>, not among the sources), the exception of
  \<open>get_password\<close> if any, the exchange with the provider, the earlier value of
  \<open>frappe.flags.integration_request\<close>, the exception of saving the message record if any,
  whether the field to set exists, and the exception of setting it if any.
\<close>

record notification =
  n_template :: "pystr option"
  n_set_property_after_alert :: "pystr option"
  n_property_value :: "pystr option"

record reference = ref_doctype :: "pystr option" ref_name :: "pystr option"

record notify_env =
  find_account :: "pystr \<Rightarrow> pystr option"
  outgoing_account :: "pystr option"
  get_password_error :: "string option"
  provider_exchange :: exchange
  prior_request :: "http_response option"
  save_message_error :: "string option"
  target_field_exists :: bool
  set_value_error :: "string option"

text \<open>
  The \<open>meta_data\<close> of the outcome log: \<open>{"error": str(e)}\<close> for the exception \<open>e\<close>,
  \<open>{"error": v}\<close> for a value \<open>v\<close> read from the error body of the response, or the decoded
  body of the response.
\<close>

datatype log_meta = ErrorText error | ErrorBody json | ResponseBody json

text \<open>
  The records \<open>notify\<close> writes: the outgoing \<open>WhatsApp Message\<close> (recipient, message id,
  parameter texts), the field set on the source document, and the
  \<open>WhatsApp Notification Log\<close>.
\<close>

datatype notify_event = SaveMessage json json "json option" | SetValue pystr pystr
  | InsertLog log_meta

fun is_log :: "notify_event \<Rightarrow> bool" where
  "is_log (InsertLog m) = True"
| "is_log e = False"

text \<open>Lines 431 to 434: the texts of the parameters of the first component.\<close>

definition template_parameters :: "json \<Rightarrow> error + json option" where
  "template_parameters data =
     ebind (ebind (py_item data (lit ''template'')) (\<lambda>t. py_item t (lit ''components''))) (\<lambda>components.
       if py_truth components then
         ebind (ebind (ebind (py_first components) (\<lambda>c. py_item c (lit ''parameters''))) py_iter)
           (\<lambda>params. ebind (emap (\<lambda>param. py_item param (lit ''text'')) params)
              (\<lambda>texts. Inr (Some (JList texts))))
       else Inr None)"

text \<open>Line 442: \<open>response['messages'][0]['id']\<close>.\<close>

definition message_id :: "json \<Rightarrow> error + json" where
  "message_id response =
     ebind (ebind (py_item response (lit ''messages'')) py_first) (\<lambda>m. py_item m (lit ''id''))"

text \<open>Lines 458 to 468: the field of the source document set after the alert.\<close>

definition set_property ::
  "notify_env \<Rightarrow> notification \<Rightarrow> reference option \<Rightarrow> notify_event list \<times> error option" where
  "set_property env self doc_data =
     (case doc_data of
        None \<Rightarrow> ([], None)
      | Some ref \<Rightarrow>
          if truthy (n_set_property_after_alert self) \<and> truthy (n_property_value self) \<and>
             truthy (ref_doctype ref) \<and> truthy (ref_name ref) \<and> target_field_exists env
          then
            (case set_value_error env of
               Some e \<Rightarrow> ([], Some (Raised e))
             | None \<Rightarrow>
                 ([SetValue (the (n_set_property_after_alert self))
                     (the (n_property_value self))], None))
          else ([], None))"

text \<open>
  The body of the \<open>try\<close> after the request (lines 428 to 471): the records written and the
  exception that ends it, if any; it ends without one exactly when \<open>success\<close> is set.
\<close>

definition notify_try ::
  "notify_env \<Rightarrow> notification \<Rightarrow> json \<Rightarrow> reference option \<Rightarrow> error + json \<Rightarrow>
     notify_event list \<times> error option" where
  "notify_try env self data doc_data posted =
     (case ebind posted (\<lambda>response.
             ebind (template_parameters data) (\<lambda>parameters.
             ebind (py_item data (lit ''to'')) (\<lambda>to.
             ebind (message_id response) (\<lambda>mid. Inr (SaveMessage to mid parameters))))) of
        Inl e \<Rightarrow> ([], Some e)
      | Inr new_doc \<Rightarrow>
          (case save_message_error env of
             Some e \<Rightarrow> ([], Some (Raised e))
           | None \<Rightarrow>
               (case set_property env self doc_data of
                  (es, r) \<Rightarrow> (new_doc # es, r))))"

text \<open>
  The \<open>except\<close> block (lines 473 to 484): the error message, and the exception the block
  itself raises, if any. The message is \<open>str(e)\<close> unless
  \<open>frappe.flags.integration_request\<close> is true and its body has a non-empty \<open>error\<close>.
\<close>

definition notify_except :: "http_response option \<Rightarrow> error \<Rightarrow> log_meta \<times> error option" where
  "notify_except flag e =
     (case flag of
        None \<Rightarrow> (ErrorText e, None)
      | Some r \<Rightarrow>
          if response_ok r then
            (case ebind (response_json r) (\<lambda>j. py_get j (lit ''error'') (JDict [])) of
               Inl e2 \<Rightarrow> (ErrorText e, Some e2)
             | Inr response \<Rightarrow>
                 if py_truth response then
                   (case ebind (py_get response (lit ''message'') JNull)
                           (\<lambda>m. py_get response (lit ''Error'') m) of
                      Inl e2 \<Rightarrow> (ErrorText e, Some e2)
                    | Inr v \<Rightarrow> (ErrorBody v, None))
                 else (ErrorText e, None))
          else (ErrorText e, None))"

text \<open>
  \<open>notify\<close>: the account is resolved and its token read, then \<open>try\<close>, \<open>except\<close> and
  \<open>finally\<close>. The result is the list of records written and the exception that leaves
  \<open>notify\<close>, if any; writing the log record itself is taken to succeed.
\<close>

definition notify ::
  "notify_env \<Rightarrow> notification \<Rightarrow> json \<Rightarrow> reference option \<Rightarrow> pystr option \<Rightarrow>
     notify_event list \<times> error option" where
  "notify env self data doc_data template_account =
     (let whatsapp_account =
            (if truthy template_account
             then (case find_account env (the template_account) of
                     None \<Rightarrow> Inl (Raised ''DoesNotExistError'')
                   | Some a \<Rightarrow> Inr (Some a))
             else Inr (outgoing_account env))
      in case whatsapp_account of
           Inl e \<Rightarrow> ([], Some e)
         | Inr account \<Rightarrow>
             if account = None
             then ([], Some (Throw ''Please set a default outgoing WhatsApp Account''))
             else
               (case get_password_error env of
                  Some e \<Rightarrow> ([], Some (Raised e))
                | None \<Rightarrow>
                    (case make_post_request (provider_exchange env) (prior_request env) of
                       (flag, posted) \<Rightarrow>
                         (case notify_try env self data doc_data posted of
                            (es, None) \<Rightarrow>
                              (case ebind (case flag of None \<Rightarrow> Inl AttributeError
                                           | Some r \<Rightarrow> Inr r) response_json of
                                 Inl e \<Rightarrow> (es, Some e)
                               | Inr meta \<Rightarrow> (es @ [InsertLog (ResponseBody meta)], None))
                          | (es, Some e) \<Rightarrow>
                              (case notify_except flag e of
                                 (error_message, raised) \<Rightarrow>
                                   (es @ [InsertLog error_message], raised))))))"

text \<open>
  The provider rejects the message: status 400 with the JSON body
  \<open>{"error": {"message": "Invalid parameter", "code": 100}}\<close>.
\<close>

definition rejected_response :: http_response where
  "rejected_response = \<lparr>http_status = 400, json_content = True,
     json_body = Some (JDict [(lit ''error'',
       JDict [(lit ''message'', JStr (lit ''Invalid parameter'')), (lit ''code'', JNum 100)])]),
     other_return = RNone\<rparr>"

definition rejected_env :: notify_env where
  "rejected_env = \<lparr>find_account = (\<lambda>name. Some name), outgoing_account = Some (lit ''main''),
     get_password_error = None, provider_exchange = Responded rejected_response,
     prior_request = None, save_message_error = None, target_field_exists = True,
     set_value_error = None\<rparr>"

definition example_notification :: notification where
  "example_notification = \<lparr>n_template = Some (lit ''order_update''),
     n_set_property_after_alert = None, n_property_value = None\<rparr>"

definition example_message :: json where
  "example_message = JDict [(lit ''messaging_product'', JStr (lit ''whatsapp'')),
     (lit ''to'', JStr (lit ''4915112345678'')), (lit ''type'', JStr (lit ''template'')),
     (lit ''template'', JDict [(lit ''name'', JStr (lit ''order_update'')),
        (lit ''language'', JDict [(lit ''code'', JStr (lit ''en''))]),
        (lit ''components'', JList [])])]"

section \<open>The webhook: incoming events\<close>

text \<open>
  \<open>message[k]\<close> and \<open>x.get(k)\<close> for a key \<open>k\<close> that is itself a value of the payload (the
  type of a message, which is a dict once its type has been read): a string is looked up,
  another hashable value is not a key of a decoded JSON object, and a list or a dict is
  not hashable.
\<close>

fun py_item_json :: "json \<Rightarrow> json \<Rightarrow> error + json" where
  "py_item_json x (JStr k) = py_item x k"
| "py_item_json (JDict kvs) (JList ks) = Inl TypeError"
| "py_item_json (JDict kvs) (JDict ks) = Inl TypeError"
| "py_item_json (JDict kvs) k = Inl KeyError"
| "py_item_json x k = Inl TypeError"

fun py_get_json :: "json \<Rightarrow> json \<Rightarrow> json \<Rightarrow> error + json" where
  "py_get_json x (JStr k) d = py_get x k d"
| "py_get_json (JDict kvs) (JList ks) d = Inl TypeError"
| "py_get_json (JDict kvs) (JDict ks) d = Inl TypeError"
| "py_get_json (JDict kvs) k d = Inr d"
| "py_get_json x k d = Inl AttributeError"

text \<open>\<open>k in x\<close> for a string \<open>k\<close>: a key of a dict, an element of a list, a part of a string.\<close>

fun py_contains :: "json \<Rightarrow> pystr \<Rightarrow> error + bool" where
  "py_contains (JDict kvs) k = Inr (map_of kvs k \<noteq> None)"
| "py_contains (JList xs) k = Inr (JStr k \<in> set xs)"
| "py_contains (JStr s) k = Inr (sublist k s)"
| "py_contains x k = Inl TypeError"

text \<open>
  What the framework and the provider answer during one \<open>post\<close>: the account
  \<open>get_whatsapp_account(phone_id)\<close> finds (a helper of \<open>frappe_whatsapp.utils\<close>, not among the
  sources), the exception of \<open>get_password\<close> if any, the download of a media file (an
  exception, nothing stored because a status was not 200, or the name of the stored file),
  and the name of the message record with a given message id.
\<close>

record webhook_env =
  account_for_phone :: "json \<Rightarrow> pystr option"
  token_error :: "string option"
  fetch_media :: "json \<Rightarrow> string + pystr option"
  message_with_id :: "json \<Rightarrow> pystr option"

text \<open>
  The records \<open>post\<close> writes: the log of the raw payload, an incoming message (content type,
  sender, text, message id), the error-log entries, a template status update (handed to
  \<open>update_template_status\<close>, which catches its own exceptions), and the status and
  conversation stored on a message record.
\<close>

datatype webhook_event = LogPayload json | SaveIncoming json json json json
  | LogStructureError | LogMissingValue | TemplateStatus json | SaveStatus pystr json json

type_synonym webhook_result = "webhook_event list \<times> error option"

text \<open>Lines 43 to 49: the messages and the phone number id.\<close>

definition entry_messages :: "json \<Rightarrow> error + json" where
  "entry_messages data =
     ebind (py_item data (lit ''entry'')) (\<lambda>e. ebind (py_first e) (\<lambda>e0.
     ebind (py_item e0 (lit ''changes'')) (\<lambda>c. ebind (py_first c) (\<lambda>c0.
     ebind (py_item c0 (lit ''value'')) (\<lambda>v. py_get v (lit ''messages'') (JList []))))))"

definition entry_phone_id :: "json \<Rightarrow> error + json" where
  "entry_phone_id data =
     ebind (py_get data (lit ''entry'') (JList [JDict []])) (\<lambda>e. ebind (py_first e) (\<lambda>e0.
     ebind (py_get e0 (lit ''changes'') (JList [JDict []])) (\<lambda>c. ebind (py_first c) (\<lambda>c0.
     ebind (py_get c0 (lit ''value'') (JDict [])) (\<lambda>v.
     ebind (py_get v (lit ''metadata'') (JDict [])) (\<lambda>m.
     py_get m (lit ''phone_number_id'') JNull))))))"

definition alternate_messages :: "json \<Rightarrow> error + json" where
  "alternate_messages data =
     ebind (py_item data (lit ''entry'')) (\<lambda>e.
     ebind (py_item e (lit ''changes'')) (\<lambda>c. ebind (py_first c) (\<lambda>c0.
     ebind (py_item c0 (lit ''value'')) (\<lambda>v. py_get v (lit ''messages'') (JList [])))))"

definition messages_and_phone_id :: "json \<Rightarrow> error + json \<times> json" where
  "messages_and_phone_id data =
     (case ebind (entry_messages data) (\<lambda>messages.
             ebind (entry_phone_id data) (\<lambda>phone_id. Inr (messages, phone_id))) of
        Inr r \<Rightarrow> Inr r
      | Inl KeyError \<Rightarrow> ebind (alternate_messages data) (\<lambda>messages. Inr (messages, JNull))
      | Inl e \<Rightarrow> Inl e)"

text \<open>
  Lines 50 to 58: the name of the first contact, \<open>None\<close> when there is no contact; the
  generator is only run up to its first value.
\<close>

definition contact_name :: "json \<Rightarrow> error + json" where
  "contact_name contact =
     ebind (py_get contact (lit ''profile'') (JDict [])) (\<lambda>p. py_get p (lit ''name'') JNull)"

definition change_contacts :: "json \<Rightarrow> error + json list" where
  "change_contacts change =
     ebind (ebind (py_get change (lit ''value'') (JDict []))
       (\<lambda>v. py_get v (lit ''contacts'') (JList []))) py_iter"

fun first_name_of_changes :: "json list \<Rightarrow> error + json option" where
  "first_name_of_changes [] = Inr None"
| "first_name_of_changes (change # changes) =
     ebind (change_contacts change) (\<lambda>contacts.
       case contacts of
         [] \<Rightarrow> first_name_of_changes changes
       | contact # rest \<Rightarrow> ebind (contact_name contact) (\<lambda>n. Inr (Some n)))"

fun first_name_of_entries :: "json list \<Rightarrow> error + json option" where
  "first_name_of_entries [] = Inr None"
| "first_name_of_entries (entry # entries) =
     ebind (ebind (py_get entry (lit ''changes'') (JList [])) py_iter) (\<lambda>changes.
     ebind (first_name_of_changes changes) (\<lambda>found.
       case found of
         Some n \<Rightarrow> Inr (Some n)
       | None \<Rightarrow> first_name_of_entries entries))"

definition sender_profile_name :: "json \<Rightarrow> error + json" where
  "sender_profile_name data =
     ebind (ebind (py_get data (lit ''entry'') (JList [])) py_iter) (\<lambda>entries.
     ebind (first_name_of_entries entries) (\<lambda>found.
       Inr (case found of Some n \<Rightarrow> n | None \<Rightarrow> JNull)))"

text \<open>Lines 66 to 180: one incoming message.\<close>

definition handle_message :: "webhook_env \<Rightarrow> json \<Rightarrow> error + webhook_event list" where
  "handle_message env message =
     ebind (py_item message (lit ''type'')) (\<lambda>message_type.
     ebind (py_get message (lit ''context'') JNull) (\<lambda>context.
     ebind (if py_truth context
            then ebind (py_contains context (lit ''forwarded'')) (\<lambda>fwd. Inr (\<not> fwd))
            else Inr False) (\<lambda>is_reply.
     ebind (if is_reply
            then ebind (ebind (py_item message (lit ''context'')) (\<lambda>c. py_item c (lit ''id'')))
                   (\<lambda>i. Inr ())
            else Inr ()) (\<lambda>reply_to_message_id.
       if message_type = JStr (lit ''text'') then
         ebind (py_item message (lit ''from'')) (\<lambda>sender.
         ebind (ebind (py_item message (lit ''text'')) (\<lambda>t. py_item t (lit ''body''))) (\<lambda>text.
         ebind (py_item message (lit ''id'')) (\<lambda>mid.
           Inr [SaveIncoming message_type sender text mid])))
       else if message_type = JStr (lit ''reaction'') then
         ebind (py_item message (lit ''from'')) (\<lambda>sender.
         ebind (ebind (py_item message (lit ''reaction'')) (\<lambda>r. py_item r (lit ''emoji''))) (\<lambda>text.
         ebind (ebind (py_item message (lit ''reaction'')) (\<lambda>r. py_item r (lit ''message_id'')))
           (\<lambda>reacted.
         ebind (py_item message (lit ''id'')) (\<lambda>mid.
           Inr [SaveIncoming (JStr (lit ''reaction'')) sender text mid]))))
       else if message_type = JStr (lit ''interactive'') then
         ebind (py_item message (lit ''from'')) (\<lambda>sender.
         ebind (ebind (ebind (py_item message (lit ''interactive''))
                  (\<lambda>i. py_item i (lit ''nfm_reply''))) (\<lambda>r. py_item r (lit ''response_json'')))
           (\<lambda>text.
         ebind (py_item message (lit ''id'')) (\<lambda>mid.
           Inr [SaveIncoming (JStr (lit ''flow'')) sender text mid])))
       else if message_type \<in> {JStr (lit ''image''), JStr (lit ''audio''), JStr (lit ''video''),
                               JStr (lit ''document'')} then
         (case token_error env of
            Some e \<Rightarrow> Inl (Raised e)
          | None \<Rightarrow>
              ebind (ebind (py_item_json message message_type) (\<lambda>m. py_item m (lit ''id'')))
                (\<lambda>media_id.
                  case fetch_media env media_id of
                    Inl e \<Rightarrow> Inl (Raised e)
                  | Inr None \<Rightarrow> Inr []
                  | Inr (Some file_name) \<Rightarrow>
                      ebind (py_item message (lit ''from'')) (\<lambda>sender.
                      ebind (py_item message (lit ''id'')) (\<lambda>mid.
                      ebind (ebind (py_item_json message message_type)
                               (\<lambda>m. py_get m (lit ''caption'') (JStr (lit ''/files/'' @ file_name))))
                        (\<lambda>text. Inr [SaveIncoming message_type sender text mid])))))
       else if message_type = JStr (lit ''button'') then
         ebind (py_item message (lit ''from'')) (\<lambda>sender.
         ebind (ebind (py_item message (lit ''button'')) (\<lambda>b. py_item b (lit ''text''))) (\<lambda>text.
         ebind (py_item message (lit ''id'')) (\<lambda>mid.
           Inr [SaveIncoming message_type sender text mid])))
       else
         ebind (py_item message (lit ''from'')) (\<lambda>sender.
         ebind (py_item message (lit ''id'')) (\<lambda>mid.
         ebind (ebind (py_item_json message message_type)
                  (\<lambda>m. py_get_json m message_type JNull)) (\<lambda>text.
           Inr [SaveIncoming message_type sender text mid])))))))"

text \<open>The loop of line 65: the records written before the first exception are kept.\<close>

fun handle_messages :: "webhook_env \<Rightarrow> json list \<Rightarrow> webhook_result" where
  "handle_messages env [] = ([], None)"
| "handle_messages env (message # messages) =
     (case handle_message env message of
        Inl e \<Rightarrow> ([], Some e)
      | Inr es \<Rightarrow> (case handle_messages env messages of (es', r) \<Rightarrow> (es @ es', r)))"

text \<open>
  \<open>update_message_status\<close> (lines 301 to 312); \<open>frappe.get_doc\<close> raises when no message
  record has the id.
\<close>

definition update_message_status :: "webhook_env \<Rightarrow> json \<Rightarrow> webhook_result" where
  "update_message_status env data =
     (case ebind (ebind (ebind (py_item data (lit ''statuses'')) py_first) (\<lambda>s. py_item s (lit ''id'')))
             (\<lambda>mid.
           ebind (ebind (ebind (py_item data (lit ''statuses'')) py_first)
                    (\<lambda>s. py_item s (lit ''status''))) (\<lambda>st.
           ebind (ebind (ebind (ebind (py_item data (lit ''statuses'')) py_first)
                    (\<lambda>s. py_get s (lit ''conversation'') (JDict [])))
                    (\<lambda>c. py_get c (lit ''id'') JNull)) (\<lambda>conversation.
             Inr (mid, st, conversation)))) of
        Inl e \<Rightarrow> ([], Some e)
      | Inr (mid, st, conversation) \<Rightarrow>
          (case message_with_id env mid of
             None \<Rightarrow> ([], Some (Raised ''DoesNotExistError''))
           | Some name \<Rightarrow> ([SaveStatus name st conversation], None)))"

text \<open>\<open>update_status\<close> (lines 196 to 222); \<open>data\<close> is true when it is called.\<close>

definition update_status :: "webhook_env \<Rightarrow> json \<Rightarrow> webhook_result" where
  "update_status env data =
     (if \<not> py_truth data then ([], None)
      else
        case py_get data (lit ''field'') JNull of
          Inl e \<Rightarrow> ([], Some e)
        | Inr field \<Rightarrow>
            if field = JStr (lit ''message_template_status_update'') then
              (case py_get data (lit ''value'') JNull of
                 Inl e \<Rightarrow> ([], Some e)
               | Inr v \<Rightarrow> if py_truth v then ([TemplateStatus v], None)
                          else ([LogMissingValue], None))
            else if field = JStr (lit ''messages'') then
              (case py_get data (lit ''value'') JNull of
                 Inl e \<Rightarrow> ([], Some e)
               | Inr v \<Rightarrow> if py_truth v then update_message_status env v
                          else ([LogMissingValue], None))
            else ([], None))"

text \<open>
  Lines 183 to 193: the change of a payload without messages; the two handlers catch
  \<open>KeyError\<close>, \<open>IndexError\<close> and \<open>TypeError\<close>.
\<close>

definition caught :: "error \<Rightarrow> bool" where
  "caught e = (e = KeyError \<or> e = IndexError \<or> e = TypeError)"

definition status_change :: "webhook_env \<Rightarrow> json \<Rightarrow> webhook_result" where
  "status_change env data =
     (case ebind (py_item data (lit ''entry'')) (\<lambda>e. ebind (py_first e) (\<lambda>e0.
             ebind (py_item e0 (lit ''changes'')) py_first)) of
        Inr changes \<Rightarrow> if py_truth changes then update_status env changes else ([], None)
      | Inl e \<Rightarrow>
          if caught e then
            (case ebind (py_item data (lit ''entry'')) (\<lambda>e.
                    ebind (py_item e (lit ''changes'')) py_first) of
               Inr changes \<Rightarrow> if py_truth changes then update_status env changes else ([], None)
             | Inl e2 \<Rightarrow> if caught e2 then ([LogStructureError], None) else ([], Some e2))
          else ([], Some e))"

text \<open>
  \<open>post\<close>: the result is the list of records written and the exception that leaves the
  handler, if any.
\<close>

definition post :: "webhook_env \<Rightarrow> json \<Rightarrow> webhook_result" where
  "post env data =
     (case messages_and_phone_id data of
        Inl e \<Rightarrow> ([LogPayload data], Some e)
      | Inr (messages, phone_id) \<Rightarrow>
          (case sender_profile_name data of
             Inl e \<Rightarrow> ([LogPayload data], Some e)
           | Inr name \<Rightarrow>
               let whatsapp_account =
                     (if py_truth phone_id then account_for_phone env phone_id else None)
               in if whatsapp_account = None then ([LogPayload data], None)
                  else
                    (case (if py_truth messages
                           then (case py_iter messages of
                                   Inl e \<Rightarrow> ([], Some e)
                                 | Inr ms \<Rightarrow> handle_messages env ms)
                           else status_change env data) of
                       (es, r) \<Rightarrow> (LogPayload data # es, r))))"

text \<open>
  An environment with one account, and two payloads: the empty one, and a change of the
  field \<open>messages\<close> whose value has neither messages nor statuses.
\<close>

definition example_webhook_env :: webhook_env where
  "example_webhook_env = \<lparr>account_for_phone = (\<lambda>p. Some (lit ''main'')), token_error = None,
     fetch_media = (\<lambda>m. Inr None), message_with_id = (\<lambda>i. None)\<rparr>"

definition payload_without_statuses :: json where
  "payload_without_statuses =
     JDict [(lit ''entry'', JList [JDict [(lit ''changes'', JList [JDict [
       (lit ''field'', JStr (lit ''messages'')),
       (lit ''value'', JDict [(lit ''metadata'',
          JDict [(lit ''phone_number_id'', JStr (lit ''1029384756''))])])]])]])]"

section \<open>Properties of the parameter sanitizer\<close>

subsection \<open>Stripping\<close>

lemma lstrip_by_suffix: "suffix (lstrip_by P s) s"
  by (simp add: lstrip_by_def suffix_dropWhile)

lemma rstrip_by_prefix: "prefix (rstrip_by P s) s"
proof -
  have "suffix (dropWhile P (rev s)) (rev s)" by (rule suffix_dropWhile)
  then show ?thesis by (simp add: rstrip_by_def suffix_to_prefix)
qed

lemma strip_by_sublist: "sublist (strip_by P s) s"
proof -
  have "sublist (strip_by P s) (lstrip_by P s)"
    unfolding strip_by_def by (rule prefix_imp_sublist [OF rstrip_by_prefix])
  moreover have "sublist (lstrip_by P s) s"
    by (rule suffix_imp_sublist [OF lstrip_by_suffix])
  ultimately show ?thesis by (rule sublist_order.order.trans)
qed

lemma set_strip_by: "set (strip_by P s) \<subseteq> set s"
  using strip_by_sublist [of P s] by (rule set_mono_sublist)

lemma rstrip_by_idem: "rstrip_by P (rstrip_by P s) = rstrip_by P s"
  by (simp add: rstrip_by_def dropWhile_idem)

lemma lstrip_rstrip_lstrip:
  "lstrip_by P (rstrip_by P (lstrip_by P s)) = rstrip_by P (lstrip_by P s)"
proof (cases "rstrip_by P (lstrip_by P s) = []")
  case True
  then show ?thesis by (simp add: lstrip_by_def)
next
  case False
  let ?u = "lstrip_by P s" and ?t = "rstrip_by P (lstrip_by P s)"
  from rstrip_by_prefix [of P ?u] obtain zs where zs: "?u = ?t @ zs"
    by (auto simp: prefix_def)
  from False zs have ne: "?u \<noteq> []" by auto
  from False zs have "hd ?t = hd ?u" by (metis hd_append2)
  moreover from ne have "\<not> P (hd ?u)"
    unfolding lstrip_by_def by (rule hd_dropWhile)
  ultimately have "\<not> P (hd ?t)" by simp
  then show ?thesis
    unfolding lstrip_by_def [of P ?t] by (simp add: dropWhile_eq_self_iff)
qed

lemma strip_by_idem: "strip_by P (strip_by P s) = strip_by P s"
  by (simp add: strip_by_def lstrip_rstrip_lstrip rstrip_by_idem)

lemma strip_by_eq_Nil: "strip_by P s = [] \<longleftrightarrow> (\<forall>c\<in>set s. P c)"
proof -
  have "strip_by P s = [] \<longleftrightarrow> (\<forall>c\<in>set (dropWhile P s). P c)"
    by (simp add: strip_by_def rstrip_by_def lstrip_by_def dropWhile_eq_Nil_conv)
  also have "\<dots> \<longleftrightarrow> dropWhile P (dropWhile P s) = []"
    by (simp only: dropWhile_eq_Nil_conv)
  also have "\<dots> \<longleftrightarrow> (\<forall>c\<in>set s. P c)"
    by (simp only: dropWhile_idem dropWhile_eq_Nil_conv)
  finally show ?thesis .
qed

subsection \<open>Replacing runs\<close>

lemma set_py_replace: "set (py_replace old new s) \<subseteq> (set s - {old}) \<union> set new"
  by (induction s) (auto simp: py_replace_def)

lemma py_replace_id: "old \<notin> set s \<Longrightarrow> py_replace old new s = s"
  by (induction s) (auto simp: py_replace_def)

lemma set_re_sub_rep: "set (re_sub_rep C m repl s) \<subseteq> set s \<union> set repl"
proof (induction C m repl s rule: re_sub_rep.induct)
  case (1 C m repl)
  show ?case by simp
next
  case (2 C m repl c cs)
  show ?case
  proof (cases "C c \<and> m \<le> length (takeWhile C (c # cs))")
    case True
    from "2.IH"(1) [OF True]
    have "set (re_sub_rep C m repl (dropWhile C cs)) \<subseteq> set (dropWhile C cs) \<union> set repl" .
    moreover have "set (dropWhile C cs) \<subseteq> set cs" by (auto dest: set_dropWhileD)
    ultimately show ?thesis using True by auto
  next
    case False
    with 2 show ?thesis by auto
  qed
qed

lemma takeWhile_re_sub_rep:
  "length (takeWhile C s) < m \<Longrightarrow> takeWhile C (re_sub_rep C m repl s) = takeWhile C s"
  by (induction s) auto

lemma prefix_replicate_iff:
  "prefix (replicate n x) s \<longleftrightarrow> n \<le> length (takeWhile (\<lambda>c. c = x) s)"
proof (induction n arbitrary: s)
  case 0
  show ?case by simp
next
  case (Suc n)
  show ?case by (cases s) (auto simp: Suc)
qed

lemma sublist_replicate_Cons:
  "sublist (replicate n x) (c # cs) \<longleftrightarrow>
     n \<le> length (takeWhile (\<lambda>c. c = x) (c # cs)) \<or> sublist (replicate n x) cs"
  by (simp only: sublist_Cons_right prefix_replicate_iff)

lemma re_sub_rep_head:
  "s = [] \<or> \<not> C (hd s) \<Longrightarrow> takeWhile C (re_sub_rep C m repl s) = []"
  by (cases s) auto

lemma takeWhile_replicate_append:
  "takeWhile (\<lambda>c. c = x) (replicate k x @ t) = replicate k x @ takeWhile (\<lambda>c. c = x) t"
  by (induction k) simp_all

lemma no_run_append:
  assumes "k < n" and "takeWhile (\<lambda>c. c = x) t = []" and "\<not> sublist (replicate n x) t"
  shows "\<not> sublist (replicate n x) (replicate k x @ t)"
  using assms(1)
proof (induction k)
  case 0
  with assms(3) show ?case by simp
next
  case (Suc k)
  have "takeWhile (\<lambda>c. c = x) (replicate (Suc k) x @ t) = replicate (Suc k) x"
    using assms(2) by (simp only: takeWhile_replicate_append append_Nil2)
  then have "length (takeWhile (\<lambda>c. c = x) (x # replicate k x @ t)) = Suc k" by simp
  with Suc show ?case
    by (simp add: sublist_replicate_Cons del: takeWhile.simps)
qed

lemma re_sub_rep_no_run_aux:
  "k < m \<Longrightarrow> repl = replicate k x \<Longrightarrow> C = (\<lambda>c. c = x) \<Longrightarrow>
     \<not> sublist (replicate m x) (re_sub_rep C m repl s)"
proof (induction C m repl s rule: re_sub_rep.induct)
  case (1 C m repl)
  then show ?case by simp
next
  case (2 C m repl c cs)
  show ?case
  proof (cases "C c \<and> m \<le> length (takeWhile C (c # cs))")
    case True
    let ?rest = "dropWhile C cs"
    have "?rest = [] \<or> \<not> C (hd ?rest)" using hd_dropWhile [of C cs] by blast
    then have "takeWhile C (re_sub_rep C m repl ?rest) = []"
      by (rule re_sub_rep_head)
    moreover from "2.IH"(1) [OF True "2.prems"]
    have "\<not> sublist (replicate m x) (re_sub_rep C m repl ?rest)" .
    ultimately have "\<not> sublist (replicate m x) (replicate k x @ re_sub_rep C m repl ?rest)"
      using "2.prems" by (intro no_run_append) simp_all
    moreover have "re_sub_rep C m repl (c # cs) = repl @ re_sub_rep C m repl ?rest"
      using True by (simp del: takeWhile.simps)
    ultimately show ?thesis using "2.prems" by simp
  next
    case False
    from "2.IH"(2) [OF False "2.prems"]
    have ih: "\<not> sublist (replicate m x) (re_sub_rep C m repl cs)" .
    have "length (takeWhile C (c # re_sub_rep C m repl cs)) < m"
    proof (cases "C c")
      case True
      with False have lt: "length (takeWhile C (c # cs)) < m" by simp
      with True have "length (takeWhile C cs) < m" by simp
      then have "takeWhile C (re_sub_rep C m repl cs) = takeWhile C cs"
        by (rule takeWhile_re_sub_rep)
      with lt True show ?thesis by simp
    next
      case False
      with "2.prems" show ?thesis by simp
    qed
    moreover have "re_sub_rep C m repl (c # cs) = c # re_sub_rep C m repl cs"
      using False by (auto simp del: takeWhile.simps)
    ultimately show ?thesis using ih "2.prems"
      by (simp add: sublist_replicate_Cons del: takeWhile.simps)
  qed
qed

lemma re_sub_rep_no_run:
  "k < m \<Longrightarrow> \<not> sublist (replicate m x) (re_sub_rep (\<lambda>c. c = x) m (replicate k x) s)"
  by (rule re_sub_rep_no_run_aux) simp_all

lemma re_sub_rep_id:
  "\<not> sublist (replicate m x) s \<Longrightarrow> re_sub_rep (\<lambda>c. c = x) m repl s = s"
proof (induction s)
  case Nil
  show ?case by simp
next
  case (Cons c cs)
  from Cons.prems have "\<not> m \<le> length (takeWhile (\<lambda>c. c = x) (c # cs))"
    and "\<not> sublist (replicate m x) cs"
    by (simp_all add: sublist_replicate_Cons del: takeWhile.simps)
  with Cons.IH show ?case by simp
qed


subsection \<open>The parameter sanitizer\<close>

lemma notin_py_replace:
  "c \<notin> set new \<Longrightarrow> c = old \<or> c \<notin> set s \<Longrightarrow> c \<notin> set (py_replace old new s)"
  by (induction s) (auto simp: py_replace_def)

lemma replaced_chars:
  "{LF, CR, TAB} \<inter> set (py_replace TAB [SP] (py_replace CR [SP] (py_replace LF [SP] t))) = {}"
proof -
  let ?a = "py_replace LF [SP] t"
  let ?b = "py_replace CR [SP] ?a"
  have a: "LF \<notin> set ?a" by (rule notin_py_replace) simp_all
  then have b: "LF \<notin> set ?b" "CR \<notin> set ?b" by (simp_all add: notin_py_replace)
  then have "LF \<notin> set (py_replace TAB [SP] ?b)" "CR \<notin> set (py_replace TAB [SP] ?b)"
    "TAB \<notin> set (py_replace TAB [SP] ?b)" by (simp_all add: notin_py_replace)
  then show ?thesis by simp
qed

lemma four_spaces: "lit ''    '' = replicate 4 SP"
  by (simp add: eval_nat_numeral)

lemma collapsed_chars:
  "{LF, CR, TAB} \<inter> set s = {} \<Longrightarrow>
     {LF, CR, TAB} \<inter> set (py_strip (re_sub_rep (\<lambda>c. c = SP) 5 (lit ''    '') s)) = {}"
  using set_re_sub_rep [of "\<lambda>c. c = SP" 5 "lit ''    ''" s]
    set_strip_by [of py_isspace "re_sub_rep (\<lambda>c. c = SP) 5 (lit ''    '') s"]
  unfolding py_strip_def by auto

lemma sublist_replicate_le:
  "m \<le> n \<Longrightarrow> sublist (replicate n x) s \<Longrightarrow> sublist (replicate m x) s"
proof -
  assume "m \<le> n" and s: "sublist (replicate n x) s"
  then have "replicate n x = replicate m x @ replicate (n - m) x"
    by (simp add: replicate_add [symmetric])
  then have "sublist (replicate m x) (replicate n x)"
    by (metis prefix_imp_sublist prefixI)
  then show ?thesis using s by (rule sublist_order.order.trans)
qed

lemma collapsed_no_run:
  "5 \<le> n \<Longrightarrow> \<not> sublist (replicate n SP) (py_strip (re_sub_rep (\<lambda>c. c = SP) 5 (lit ''    '') s))"
proof
  let ?t = "re_sub_rep (\<lambda>c. c = SP) 5 (lit ''    '') s"
  assume "5 \<le> n" and "sublist (replicate n SP) (py_strip ?t)"
  then have "sublist (replicate 5 SP) (py_strip ?t)" by (rule sublist_replicate_le)
  moreover have "sublist (py_strip ?t) ?t" unfolding py_strip_def by (rule strip_by_sublist)
  ultimately have "sublist (replicate 5 SP) ?t" by (rule sublist_order.order.trans)
  moreover have "\<not> sublist (replicate 5 SP) (re_sub_rep (\<lambda>c. c = SP) 5 (replicate 4 SP) s)"
    by (rule re_sub_rep_no_run) simp
  ultimately show False by (simp only: four_spaces)
qed

lemma dash_no_run: "5 \<le> n \<Longrightarrow> \<not> sublist (replicate n SP) (lit ''-'')"
  by (simp add: sublist_replicate_Cons)

lemma sanitize_whatsapp_param_cases:
  "sanitize_whatsapp_param v = lit ''-'' \<or>
   (sanitize_whatsapp_param v \<noteq> [] \<and>
    sanitize_whatsapp_param v =
      py_strip (re_sub_rep (\<lambda>c. c = SP) 5 (lit ''    '')
        (py_replace TAB [SP] (py_replace CR [SP] (py_replace LF [SP] (py_str v))))))"
  by (simp add: sanitize_whatsapp_param_def Let_def)

lemma blank_stays_blank:
  assumes "py_strip s = []"
  shows "py_strip (re_sub_rep (\<lambda>c. c = SP) 5 (lit ''    '') s) = []"
proof -
  from assms have all: "\<forall>c\<in>set s. py_isspace c"
    by (simp add: py_strip_def strip_by_eq_Nil)
  have "py_isspace SP" by (simp add: py_isspace_def)
  with all have "\<forall>c\<in>set (re_sub_rep (\<lambda>c. c = SP) 5 (lit ''    '') s). py_isspace c"
    using set_re_sub_rep [of "\<lambda>c. c = SP" 5 "lit ''    ''" s] by auto
  then show ?thesis by (simp add: py_strip_def strip_by_eq_Nil)
qed

text \<open>
  C1. Whatever the value, the result of \<open>sanitize_whatsapp_param\<close> contains no newline, no
  carriage return and no tab, and no run of five or more consecutive spaces; for \<open>None\<close>,
  for the empty string, and for any value whose text is empty after the replacement of
  these characters and stripping, the result is exactly \<open>"-"\<close>.
\<close>

theorem sanitize_whatsapp_param_clean:
  "LF \<notin> set (sanitize_whatsapp_param v) \<and> CR \<notin> set (sanitize_whatsapp_param v) \<and>
   TAB \<notin> set (sanitize_whatsapp_param v) \<and>
   (\<forall>n\<ge>5. \<not> sublist (replicate n SP) (sanitize_whatsapp_param v)) \<and>
   sanitize_whatsapp_param PyNone = lit ''-'' \<and>
   sanitize_whatsapp_param (PyStr []) = lit ''-'' \<and>
   (py_strip (py_replace TAB [SP] (py_replace CR [SP] (py_replace LF [SP] (py_str v)))) = []
      \<longrightarrow> sanitize_whatsapp_param v = lit ''-'')"
proof -
  let ?r = "py_replace TAB [SP] (py_replace CR [SP] (py_replace LF [SP] (py_str v)))"
  let ?out = "sanitize_whatsapp_param v"
  have chars: "{LF, CR, TAB} \<inter> set ?out = {}"
    using sanitize_whatsapp_param_cases [of v]
  proof
    assume "?out = lit ''-''"
    then show ?thesis by simp
  next
    assume "?out \<noteq> [] \<and> ?out = py_strip (re_sub_rep (\<lambda>c. c = SP) 5 (lit ''    '') ?r)"
    then show ?thesis using collapsed_chars [OF replaced_chars, of "py_str v"] by simp
  qed
  have runs: "\<forall>n\<ge>5. \<not> sublist (replicate n SP) ?out"
    using sanitize_whatsapp_param_cases [of v] collapsed_no_run [of _ ?r] dash_no_run
    by metis
  have blank: "py_strip ?r = [] \<longrightarrow> ?out = lit ''-''"
    using blank_stays_blank [of ?r] by (simp add: sanitize_whatsapp_param_def Let_def)
  have "sanitize_whatsapp_param PyNone = lit ''-''"
    and "sanitize_whatsapp_param (PyStr []) = lit ''-''"
    by (simp_all add: sanitize_whatsapp_param_def)
  with chars runs blank show ?thesis by auto
qed

theorem sanitize_whatsapp_param_clean_witness:
  "(5::nat) \<le> 7 \<and>
   py_strip (py_replace TAB [SP] (py_replace CR [SP] (py_replace LF [SP]
     (py_str (PyStr [SP, LF, TAB, CR]))))) = [] \<and>
   sanitize_whatsapp_param (PyStr [SP, LF, TAB, CR]) = lit ''-'' \<and>
   \<not> sublist (replicate 7 SP) (sanitize_whatsapp_param (PyStr [SP, LF, TAB, CR]))"
proof -
  have e: "py_strip (py_replace TAB [SP] (py_replace CR [SP] (py_replace LF [SP]
     (py_str (PyStr [SP, LF, TAB, CR]))))) = []"
    by (simp add: py_replace_def py_strip_def strip_by_def lstrip_by_def rstrip_by_def
        py_isspace_def)
  from sanitize_whatsapp_param_clean [of "PyStr [SP, LF, TAB, CR]"]
  have "\<forall>n\<ge>5. \<not> sublist (replicate n SP) (sanitize_whatsapp_param (PyStr [SP, LF, TAB, CR]))"
    and "sanitize_whatsapp_param (PyStr [SP, LF, TAB, CR]) = lit ''-''"
    using e by blast+
  then show ?thesis using e by simp
qed

lemma sanitize_whatsapp_param_PyStr:
  "s \<noteq> [] \<Longrightarrow> sanitize_whatsapp_param (PyStr s) =
      (let text = py_strip (re_sub_rep (\<lambda>c. c = SP) 5 (lit ''    '')
          (py_replace TAB [SP] (py_replace CR [SP] (py_replace LF [SP] s))))
       in if text = [] then lit ''-'' else text)"
  by (simp add: sanitize_whatsapp_param_def Let_def)

text \<open>
  C10. \<open>sanitize_whatsapp_param\<close> is idempotent: sanitizing its own result returns that
  result unchanged.
\<close>

theorem sanitize_whatsapp_param_idempotent:
  "sanitize_whatsapp_param (PyStr (sanitize_whatsapp_param v)) = sanitize_whatsapp_param v"
  using sanitize_whatsapp_param_cases [of v]
proof
  assume "sanitize_whatsapp_param v = lit ''-''"
  then show ?thesis
    by (simp add: sanitize_whatsapp_param_def py_replace_def py_strip_def strip_by_def
        lstrip_by_def rstrip_by_def py_isspace_def)
next
  let ?r = "py_replace TAB [SP] (py_replace CR [SP] (py_replace LF [SP] (py_str v)))"
  let ?c = "re_sub_rep (\<lambda>c. c = SP) 5 (lit ''    '') ?r"
  let ?out = "sanitize_whatsapp_param v"
  assume a: "?out \<noteq> [] \<and> ?out = py_strip ?c"
  have "{LF, CR, TAB} \<inter> set ?out = {}"
    using a collapsed_chars [OF replaced_chars, of "py_str v"] by metis
  then have r: "py_replace TAB [SP] (py_replace CR [SP] (py_replace LF [SP] ?out)) = ?out"
    by (simp add: py_replace_id)
  have "\<not> sublist (replicate 5 SP) ?out"
    using a collapsed_no_run [of 5 ?r] by (metis order_refl)
  then have c: "re_sub_rep (\<lambda>c. c = SP) 5 (lit ''    '') ?out = ?out"
    by (rule re_sub_rep_id)
  have "py_strip (py_strip ?c) = py_strip ?c"
    by (simp add: py_strip_def strip_by_idem)
  with a have s: "py_strip ?out = ?out" by metis
  from a have ne: "?out \<noteq> []" by blast
  have "sanitize_whatsapp_param (PyStr ?out) =
      (let text = py_strip (re_sub_rep (\<lambda>c. c = SP) 5 (lit ''    '')
          (py_replace TAB [SP] (py_replace CR [SP] (py_replace LF [SP] ?out))))
       in if text = [] then lit ''-'' else text)"
    using ne by (rule sanitize_whatsapp_param_PyStr)
  also have "\<dots> = ?out" using ne by (simp only: r c s Let_def if_False)
  finally show ?thesis .
qed

section \<open>Properties of the template name sanitizer\<close>

lemma hd_strip_by:
  assumes "strip_by P s \<noteq> []"
  shows "\<not> P (hd (strip_by P s))"
proof -
  have "lstrip_by P (strip_by P s) = strip_by P s"
    unfolding strip_by_def by (rule lstrip_rstrip_lstrip)
  with assms show ?thesis
    by (simp add: lstrip_by_def dropWhile_eq_self_iff)
qed

lemma name_char_ascii: "name_char c \<Longrightarrow> c < 128"
  by (auto simp: name_char_def is_az_def is_09_def)

lemma cleaned_name_chars:
  "list_all name_char (strip_by (\<lambda>c. c = US)
     (re_sub_rep (\<lambda>c. c = US) 1 (lit ''_'') (filter name_char s)))"
proof -
  let ?f = "filter name_char s"
  let ?c = "re_sub_rep (\<lambda>c. c = US) 1 (lit ''_'') ?f"
  have "set (strip_by (\<lambda>c. c = US) ?c) \<subseteq> set ?c" by (rule set_strip_by)
  also have "\<dots> \<subseteq> set ?f \<union> set (lit ''_'')" by (rule set_re_sub_rep)
  finally have sub: "set (strip_by (\<lambda>c. c = US) ?c) \<subseteq> set ?f \<union> set (lit ''_'')" .
  have "\<forall>c\<in>set (strip_by (\<lambda>c. c = US) ?c). name_char c"
  proof
    fix c assume "c \<in> set (strip_by (\<lambda>c. c = US) ?c)"
    with sub have "c \<in> set ?f \<union> set (lit ''_'')" by (rule subsetD)
    then show "name_char c" by (auto simp: name_char_def)
  qed
  then show ?thesis by (simp only: list_all_iff)
qed

lemma matches_template_name_re_iff:
  assumes "s \<noteq> []" and "list_all name_char s"
  shows "matches_template_name_re s \<longleftrightarrow> is_az (hd s)"
proof (cases s)
  case Nil
  with assms show ?thesis by simp
next
  case (Cons c cs)
  with assms show ?thesis by (simp add: matches_template_name_re_def)
qed

subsection \<open>The letters and digits of a name survive the cleaning\<close>

lemma filter_dropWhile_other:
  "(\<And>c. P c \<Longrightarrow> \<not> Q c) \<Longrightarrow> filter Q (dropWhile P s) = filter Q s"
  by (induction s) auto

lemma filter_strip_by_other:
  assumes "\<And>c. P c \<Longrightarrow> \<not> Q c"
  shows "filter Q (strip_by P s) = filter Q s"
proof -
  have "filter Q (rstrip_by P t) = filter Q t" for t
  proof -
    have "filter Q (rstrip_by P t) = rev (filter Q (dropWhile P (rev t)))"
      by (simp add: rstrip_by_def rev_filter)
    also have "\<dots> = rev (filter Q (rev t))"
      using assms by (simp add: filter_dropWhile_other)
    also have "\<dots> = filter Q t" by (simp add: rev_filter)
    finally show ?thesis .
  qed
  then show ?thesis
    using assms by (simp add: strip_by_def lstrip_by_def filter_dropWhile_other)
qed

lemma filter_re_sub_rep_other:
  "(\<And>c. C c \<Longrightarrow> \<not> Q c) \<Longrightarrow> filter Q repl = [] \<Longrightarrow>
     filter Q (re_sub_rep C m repl s) = filter Q s"
proof (induction C m repl s rule: re_sub_rep.induct)
  case (1 C m repl)
  show ?case by simp
next
  case (2 C m repl c cs)
  show ?case
  proof (cases "C c \<and> m \<le> length (takeWhile C (c # cs))")
    case True
    have "re_sub_rep C m repl (c # cs) = repl @ re_sub_rep C m repl (dropWhile C cs)"
      using True by (simp del: takeWhile.simps)
    moreover have "filter Q (re_sub_rep C m repl (dropWhile C cs)) = filter Q (dropWhile C cs)"
      using "2.IH"(1) [OF True] "2.prems" by blast
    moreover have "filter Q (dropWhile C cs) = filter Q cs"
      using "2.prems"(1) by (rule filter_dropWhile_other)
    moreover from True "2.prems"(1) have "\<not> Q c" by blast
    ultimately show ?thesis using "2.prems"(2) by simp
  next
    case False
    have "re_sub_rep C m repl (c # cs) = c # re_sub_rep C m repl cs"
      using False by (auto simp del: takeWhile.simps)
    moreover have "filter Q (re_sub_rep C m repl cs) = filter Q cs"
      using "2.IH"(2) [OF False] "2.prems" by blast
    ultimately show ?thesis by simp
  qed
qed

lemma separator_not_alnum: "separator_char c \<Longrightarrow> \<not> alnum_char c"
  by (auto simp: separator_char_def alnum_char_def py_isspace_def is_az_def is_09_def)

lemma filter_alnum_cleaned:
  "filter alnum_char (strip_by (\<lambda>c. c = US) (re_sub_rep (\<lambda>c. c = US) 1 (lit ''_'')
      (filter name_char (re_sub_rep separator_char 1 (lit ''_'') s)))) = filter alnum_char s"
proof -
  have us: "\<not> alnum_char c" if "c = US" for c
    using that by (simp add: alnum_char_def is_az_def is_09_def)
  have r: "filter alnum_char (lit ''_'') = []"
    by (simp add: alnum_char_def is_az_def is_09_def)
  have n: "filter alnum_char (filter name_char t) = filter alnum_char t" for t
    by (induction t) (auto simp: alnum_char_def name_char_def)
  let ?a = "re_sub_rep separator_char 1 (lit ''_'') s"
  let ?b = "re_sub_rep (\<lambda>c. c = US) 1 (lit ''_'') (filter name_char ?a)"
  have "filter alnum_char (strip_by (\<lambda>c. c = US) ?b) = filter alnum_char ?b"
    using us by (rule filter_strip_by_other)
  also have "\<dots> = filter alnum_char (filter name_char ?a)"
    using us r by (rule filter_re_sub_rep_other)
  also have "\<dots> = filter alnum_char ?a" by (rule n)
  also have "\<dots> = filter alnum_char s"
    using separator_not_alnum r by (rule filter_re_sub_rep_other)
  finally show ?thesis .
qed

text \<open>The last two steps of the sanitizer, on a cleaned name \<open>s\<close>.\<close>

lemma finish_shape:
  fixes U :: interpreter and s :: pystr
  assumes chars: "list_all name_char s" and hd: "s \<noteq> [] \<Longrightarrow> hd s \<noteq> US"
  defines "out \<equiv> (if s = [] then lit ''template_''
                    else if py_isdigit U (hd s) then US # s else s)"
  shows "out \<noteq> [] \<and> list_all name_char out \<and>
         (s = [] \<longleftrightarrow> filter alnum_char s = []) \<and>
         (s \<noteq> [] \<longrightarrow> filter alnum_char out = filter alnum_char s \<and>
                      hd (filter alnum_char s) = hd s) \<and>
         (matches_template_name_re out \<longleftrightarrow> \<not> (s \<noteq> [] \<and> is_09 (hd s))) \<and>
         (s \<noteq> [] \<and> is_09 (hd s) \<longrightarrow> out = US # s)"
proof (cases s)
  case Nil
  have "matches_template_name_re (lit ''template_'')"
    by (simp add: matches_template_name_re_def name_char_def is_az_def is_09_def)
  moreover have "list_all name_char (lit ''template_'')"
    by (simp add: name_char_def is_az_def is_09_def)
  ultimately show ?thesis using Nil by (simp add: out_def)
next
  case (Cons c cs)
  with chars have nc: "name_char c" and ncs: "list_all name_char cs" by simp_all
  then have dig: "py_isdigit U c = is_09 c"
    by (simp add: py_isdigit_def name_char_ascii)
  from hd Cons have "c \<noteq> US" by simp
  with nc have alt: "is_az c \<or> is_09 c" by (simp add: name_char_def)
  then have al: "alnum_char c" by (simp add: alnum_char_def)
  have us: "\<not> alnum_char US" by (simp add: alnum_char_def is_az_def is_09_def)
  have excl: "\<not> (is_az c \<and> is_09 c)" by (auto simp: is_az_def is_09_def)
  show ?thesis
  proof (cases "is_09 c")
    case True
    with Cons dig have o: "out = US # c # cs" by (simp add: out_def)
    have "\<not> is_az US" by (simp add: is_az_def)
    then have "\<not> matches_template_name_re (US # c # cs)"
      by (simp add: matches_template_name_re_def)
    with o Cons True nc ncs al us show ?thesis
      by (simp add: name_char_def)
  next
    case False
    with Cons dig have o: "out = c # cs" by (simp add: out_def)
    from False alt have "is_az c" by simp
    with ncs have "matches_template_name_re (c # cs)"
      by (simp add: matches_template_name_re_def)
    with o Cons False nc ncs al show ?thesis by simp
  qed
qed

lemma sanitize_template_name_unfold:
  "nm \<noteq> [] \<Longrightarrow> sanitize_template_name U (Some nm) =
     (let s = strip_by (\<lambda>c. c = US) (re_sub_rep (\<lambda>c. c = US) 1 (lit ''_'')
                (filter name_char (re_sub_rep separator_char 1 (lit ''_'') (py_lower U nm))));
          t = lit ''template_'' @ take 20 (filter alnum_char (py_lower U nm))
      in if s = [] then t else if py_isdigit U (hd s) then US # s else s)"
  unfolding sanitize_template_name_def Let_def alnum_char_def by simp

text \<open>
  C2, as amended. For every non-empty name and every interpreter, the result of
  \<open>sanitize_template_name\<close> is non-empty and consists of lowercase letters, digits and
  underscores only; its letters and digits are, in order, those of the lower-cased name,
  and it is \<open>template_\<close> when the lower-cased name has none; it matches
  \<open>^[a-z][a-z0-9_]*$\<close> except when the first letter or digit of the lower-cased name is a
  digit, and then it is an underscore followed by that digit.
\<close>

theorem sanitize_template_name_amended:
  "nm \<noteq> [] \<Longrightarrow>
     sanitize_template_name U (Some nm) \<noteq> [] \<and>
     list_all name_char (sanitize_template_name U (Some nm)) \<and>
     (filter alnum_char (py_lower U nm) = [] \<longrightarrow>
        sanitize_template_name U (Some nm) = lit ''template_'') \<and>
     (filter alnum_char (py_lower U nm) \<noteq> [] \<longrightarrow>
        filter alnum_char (sanitize_template_name U (Some nm)) =
          filter alnum_char (py_lower U nm)) \<and>
     (matches_template_name_re (sanitize_template_name U (Some nm)) \<longleftrightarrow>
        \<not> (filter alnum_char (py_lower U nm) \<noteq> [] \<and>
           is_09 (hd (filter alnum_char (py_lower U nm))))) \<and>
     (filter alnum_char (py_lower U nm) \<noteq> [] \<and>
      is_09 (hd (filter alnum_char (py_lower U nm))) \<longrightarrow>
        2 \<le> length (sanitize_template_name U (Some nm)) \<and>
        hd (sanitize_template_name U (Some nm)) = US \<and>
        sanitize_template_name U (Some nm) ! 1 = hd (filter alnum_char (py_lower U nm)))"
proof -
  assume ne: "nm \<noteq> []"
  define s where "s = strip_by (\<lambda>c. c = US) (re_sub_rep (\<lambda>c. c = US) 1 (lit ''_'')
     (filter name_char (re_sub_rep separator_char 1 (lit ''_'') (py_lower U nm))))"
  define L where "L = filter alnum_char (py_lower U nm)"
  define out where "out = sanitize_template_name U (Some nm)"
  have chars: "list_all name_char s" unfolding s_def by (rule cleaned_name_chars)
  have hd: "s \<noteq> [] \<Longrightarrow> hd s \<noteq> US"
    unfolding s_def using hd_strip_by [of "\<lambda>c. c = US"] by blast
  have fs: "filter alnum_char s = L" unfolding s_def L_def by (rule filter_alnum_cleaned)
  have t: "s = [] \<Longrightarrow> lit ''template_'' @ take 20 L = lit ''template_''"
    using fs by auto
  have "out = (if s = [] then lit ''template_'' @ take 20 L
               else if py_isdigit U (hd s) then US # s else s)"
    unfolding out_def s_def L_def
    using sanitize_template_name_unfold [OF ne, of U] by (simp only: Let_def)
  then have o: "out = (if s = [] then lit ''template_''
               else if py_isdigit U (hd s) then US # s else s)"
    using t by (cases "s = []") simp_all
  note sh = finish_shape [OF chars hd, of U, folded o, unfolded fs]
  from sh have e: "s = [] \<longleftrightarrow> L = []" by blast
  have h: "s \<noteq> [] \<Longrightarrow> hd L = hd s" using sh by blast
  have d: "s \<noteq> [] \<and> is_09 (hd s) \<Longrightarrow>
      2 \<le> length out \<and> hd out = US \<and> out ! 1 = hd s"
  proof -
    assume a: "s \<noteq> [] \<and> is_09 (hd s)"
    with sh have "out = US # s" by blast
    with a show ?thesis by (cases s) simp_all
  qed
  have "out \<noteq> [] \<and> list_all name_char out \<and>
     (L = [] \<longrightarrow> out = lit ''template_'') \<and>
     (L \<noteq> [] \<longrightarrow> filter alnum_char out = L) \<and>
     (matches_template_name_re out \<longleftrightarrow> \<not> (L \<noteq> [] \<and> is_09 (hd L))) \<and>
     (L \<noteq> [] \<and> is_09 (hd L) \<longrightarrow> 2 \<le> length out \<and> hd out = US \<and> out ! 1 = hd L)"
  proof (cases "s = []")
    case True
    with e o sh show ?thesis by simp
  next
    case False
    with e have "L \<noteq> []" by simp
    with False sh h d show ?thesis by auto
  qed
  then show ?thesis unfolding out_def L_def .
qed

lemmas template_name_eval = py_lower_def ascii_table_def separator_char_def
  py_isspace_def name_char_def is_az_def is_09_def is_AZ_def strip_by_def lstrip_by_def
  rstrip_by_def py_isdigit_def alnum_char_def

theorem sanitize_template_name_amended_witness:
  "lit ''Order Update-2'' \<noteq> [] \<and>
   filter alnum_char (py_lower ascii_table (lit ''Order Update-2'')) = lit ''orderupdate2'' \<and>
   sanitize_template_name ascii_table (Some (lit ''Order Update-2'')) = lit ''order_update_2'' \<and>
   matches_template_name_re (sanitize_template_name ascii_table (Some (lit ''Order Update-2''))) \<and>
   filter alnum_char (py_lower ascii_table (lit ''2 Go'')) = lit ''2go'' \<and>
   is_09 (hd (filter alnum_char (py_lower ascii_table (lit ''2 Go'')))) \<and>
   sanitize_template_name ascii_table (Some (lit ''2 Go'')) = lit ''_2_go'' \<and>
   filter alnum_char (py_lower ascii_table (lit ''?!'')) = [] \<and>
   sanitize_template_name ascii_table (Some (lit ''?!'')) = lit ''template_''"
proof -
  have a: "filter alnum_char (py_lower ascii_table (lit ''Order Update-2'')) = lit ''orderupdate2''"
    and b: "filter alnum_char (py_lower ascii_table (lit ''2 Go'')) = lit ''2go''"
    and c: "filter alnum_char (py_lower ascii_table (lit ''?!'')) = []"
    by (simp_all add: template_name_eval)
  have ea: "sanitize_template_name ascii_table (Some (lit ''Order Update-2'')) = lit ''order_update_2''"
    unfolding sanitize_template_name_def Let_def by (simp add: template_name_eval)
  have eb: "sanitize_template_name ascii_table (Some (lit ''2 Go'')) = lit ''_2_go''"
    unfolding sanitize_template_name_def Let_def by (simp add: template_name_eval)
  have d: "is_09 (hd (lit ''2go''))" "\<not> is_09 (hd (lit ''orderupdate2''))"
    by (simp_all add: is_09_def)
  from sanitize_template_name_amended [of "lit ''Order Update-2''" ascii_table] d(2)
  have ma: "matches_template_name_re
      (sanitize_template_name ascii_table (Some (lit ''Order Update-2'')))"
    unfolding a by simp
  from sanitize_template_name_amended [of "lit ''?!''" ascii_table] c
  have ec: "sanitize_template_name ascii_table (Some (lit ''?!'')) = lit ''template_''"
    by simp
  from a b c d(1) ea eb ec ma show ?thesis by simp
qed

text \<open>
  The claim as stated fails: the name \<open>"123"\<close> is sanitized to \<open>"_123"\<close>, which does
  not match \<open>^[a-z][a-z0-9_]*$\<close> (\<open>validate\<close> rejects such a name afterwards).
\<close>

theorem sanitize_template_name_counterexample:
  "lit ''123'' \<noteq> [] \<and>
   sanitize_template_name ascii_table (Some (lit ''123'')) = lit ''_123'' \<and>
   \<not> matches_template_name_re (sanitize_template_name ascii_table (Some (lit ''123'')))"
proof -
  have e: "sanitize_template_name ascii_table (Some (lit ''123'')) = lit ''_123''"
    unfolding sanitize_template_name_def Let_def by (simp add: template_name_eval)
  show ?thesis unfolding e by (simp add: matches_template_name_re_def is_az_def)
qed

section \<open>Properties of parameter counting and sample values\<close>

subsection \<open>The placeholder scanner\<close>

lemma not_digit_brace: "\<not> re_digit U 123" "\<not> re_digit U 125"
  by (simp_all add: re_digit_def digit_value_def is_09_def)

lemma match_placeholder_SomeD:
  assumes "match_placeholder U s = Some (ds, rest)"
  shows "s = lit ''{{'' @ ds @ lit ''}}'' @ rest \<and> ds \<noteq> [] \<and> list_all (re_digit U) ds"
proof -
  let ?t = "drop 2 s"
  let ?r = "dropWhile (re_digit U) ?t"
  from assms have a: "take 2 s = lit ''{{''" "ds = takeWhile (re_digit U) ?t" "ds \<noteq> []"
    "take 2 ?r = lit ''}}''" "rest = drop 2 ?r"
    by (auto simp: match_placeholder_def Let_def split: if_splits)
  have "s = take 2 s @ ?t" by simp
  also have "?t = takeWhile (re_digit U) ?t @ ?r" by simp
  also have "?r = take 2 ?r @ drop 2 ?r" by simp
  finally have "s = lit ''{{'' @ ds @ lit ''}}'' @ rest" using a by simp
  moreover have "list_all (re_digit U) ds"
    unfolding a(2) list_all_iff by (auto dest: set_takeWhileD)
  ultimately show ?thesis using a(3) by blast
qed

lemma match_placeholder_SomeI:
  assumes "ds \<noteq> []" and "list_all (re_digit U) ds"
  shows "match_placeholder U (lit ''{{'' @ ds @ lit ''}}'' @ rest) = Some (ds, rest)"
proof -
  have tw: "takeWhile (re_digit U) (ds @ 125 # 125 # rest) = ds"
    using assms(2) not_digit_brace(2) [of U]
    by (simp add: list_all_iff takeWhile_append2)
  have dw: "dropWhile (re_digit U) (ds @ 125 # 125 # rest) = 125 # 125 # rest"
    using assms(2) not_digit_brace(2) [of U]
    by (simp add: list_all_iff dropWhile_append2)
  show ?thesis using assms(1) by (simp add: match_placeholder_def tw dw)
qed

lemma sublist_skip_other:
  assumes "\<forall>x\<in>set w. x \<noteq> c"
  shows "sublist (c # p) (w @ r) \<longleftrightarrow> sublist (c # p) r"
  using assms by (induction w) (auto simp: sublist_Cons_right)

lemma sublist_after_match:
  assumes ds': "ds' \<noteq> []" "list_all (re_digit U) ds'"
  shows "sublist (lit ''{{'' @ ds @ lit ''}}'') (lit ''{{'' @ ds' @ lit ''}}'' @ rest) \<longleftrightarrow>
         prefix (lit ''{{'' @ ds @ lit ''}}'') (lit ''{{'' @ ds' @ lit ''}}'' @ rest) \<or>
         sublist (lit ''{{'' @ ds @ lit ''}}'') rest"
proof -
  let ?p = "123 # ds @ [125, 125]"
  from ds' obtain d ds'' where d: "ds' = d # ds''" "re_digit U d"
    by (cases ds') auto
  with not_digit_brace(1) [of U] have d123: "d \<noteq> 123" by auto
  have no123: "\<forall>x\<in>set (ds' @ [125, 125]). x \<noteq> 123"
    using ds'(2) not_digit_brace(1) [of U] by (auto simp: list_all_iff)
  have "sublist (123 # ?p) (123 # ds' @ 125 # 125 # rest) \<longleftrightarrow>
        sublist (123 # ?p) (ds' @ 125 # 125 # rest)"
    using d d123 by (simp add: sublist_Cons_right)
  also have "\<dots> \<longleftrightarrow> sublist (123 # ?p) ((ds' @ [125, 125]) @ rest)" by simp
  also have "\<dots> \<longleftrightarrow> sublist (123 # ?p) rest"
    using no123 by (rule sublist_skip_other)
  finally have "sublist (123 # ?p) (123 # 123 # ds' @ 125 # 125 # rest) \<longleftrightarrow>
      prefix (123 # ?p) (123 # 123 # ds' @ 125 # 125 # rest) \<or> sublist (123 # ?p) rest"
    by (simp only: sublist_Cons_right [of "123 # ?p" 123 "123 # ds' @ 125 # 125 # rest"])
  then show ?thesis by simp
qed

lemma prefix_placeholder_match:
  assumes "ds \<noteq> []" and "list_all (re_digit U) ds"
    and "prefix (lit ''{{'' @ ds @ lit ''}}'') s"
  shows "\<exists>rest. match_placeholder U s = Some (ds, rest)"
proof -
  from assms(3) obtain rest where "s = (lit ''{{'' @ ds @ lit ''}}'') @ rest"
    by (auto simp: prefix_def)
  then have "s = lit ''{{'' @ ds @ lit ''}}'' @ rest" by simp
  with match_placeholder_SomeI [OF assms(1,2), of rest] show ?thesis by auto
qed

lemma set_findall_placeholders:
  "set (findall_placeholders U s) =
     {ds. ds \<noteq> [] \<and> list_all (re_digit U) ds \<and> sublist (lit ''{{'' @ ds @ lit ''}}'') s}"
proof (induction U s rule: findall_placeholders.induct)
  case (1 U)
  show ?case by simp
next
  case (2 U c cs)
  show ?case
  proof (cases "match_placeholder U (c # cs)")
    case None
    have "\<not> prefix (lit ''{{'' @ ds @ lit ''}}'') (c # cs)"
      if "ds \<noteq> []" "list_all (re_digit U) ds" for ds
      using prefix_placeholder_match [OF that, of "c # cs"] None by auto
    then have "{ds. ds \<noteq> [] \<and> list_all (re_digit U) ds \<and>
          sublist (lit ''{{'' @ ds @ lit ''}}'') (c # cs)} =
        {ds. ds \<noteq> [] \<and> list_all (re_digit U) ds \<and> sublist (lit ''{{'' @ ds @ lit ''}}'') cs}"
      by (auto simp: sublist_Cons_right)
    with None "2.IH"(1) [OF None] show ?thesis by simp
  next
    case (Some m)
    obtain ds' rest where m: "m = (ds', rest)" by (cases m)
    from Some m have mp: "match_placeholder U (c # cs) = Some (ds', rest)" by simp
    note shape = match_placeholder_SomeD [OF mp]
    then have s: "c # cs = lit ''{{'' @ ds' @ lit ''}}'' @ rest"
      and ds': "ds' \<noteq> []" "list_all (re_digit U) ds'" by blast+
    have ih: "set (findall_placeholders U rest) =
        {ds. ds \<noteq> [] \<and> list_all (re_digit U) ds \<and> sublist (lit ''{{'' @ ds @ lit ''}}'') rest}"
      using "2.IH"(2) [OF Some m [symmetric]] .
    have pre: "prefix (lit ''{{'' @ ds @ lit ''}}'') (c # cs) \<longleftrightarrow> ds = ds'"
      if "ds \<noteq> []" "list_all (re_digit U) ds" for ds
    proof
      assume "prefix (lit ''{{'' @ ds @ lit ''}}'') (c # cs)"
      with prefix_placeholder_match [OF that, of "c # cs"] mp show "ds = ds'" by auto
    next
      assume "ds = ds'"
      then show "prefix (lit ''{{'' @ ds @ lit ''}}'') (c # cs)"
        unfolding s by (simp add: prefix_def)
    qed
    have "{ds. ds \<noteq> [] \<and> list_all (re_digit U) ds \<and>
          sublist (lit ''{{'' @ ds @ lit ''}}'') (c # cs)} =
        insert ds' {ds. ds \<noteq> [] \<and> list_all (re_digit U) ds \<and>
          sublist (lit ''{{'' @ ds @ lit ''}}'') rest}"
      unfolding s sublist_after_match [OF ds'] using pre ds' unfolding s by blast
    with mp ih show ?thesis by simp
  qed
qed

lemma placeholders_findall: "placeholders U text = set (findall_placeholders U text)"
  unfolding placeholders_def set_findall_placeholders ..

subsection \<open>The value of a numeral\<close>

lemma foldl_decimal:
  "foldl (\<lambda>a d. 10 * a + f d) (acc::nat) ds =
     acc * 10 ^ length ds + (\<Sum>i<length ds. f (ds ! i) * 10 ^ (length ds - 1 - i))"
proof (induction ds arbitrary: acc)
  case Nil
  show ?case by simp
next
  case (Cons d ds)
  have "(\<Sum>i<Suc (length ds). f ((d # ds) ! i) * 10 ^ (Suc (length ds) - 1 - i)) =
      f d * 10 ^ length ds + (\<Sum>i<length ds. f (ds ! i) * 10 ^ (length ds - 1 - i))"
    by (simp add: sum.lessThan_Suc_shift del: sum.lessThan_Suc)
  with Cons [of "10 * acc + f d"] show ?case
    by (simp add: algebra_simps)
qed

lemma py_int_decimal_value:
  assumes "ds \<noteq> []" and "list_all (re_digit U) ds"
  shows "py_int U ds =
     (if exceeds_digit_limit U ds then Inl ValueError else Inr (decimal_value U ds))"
  using assms foldl_decimal [of "digit_of U" 0 ds]
  by (simp add: py_int_def decimal_value_def)

lemma emap_py_int_ok:
  "\<forall>ds\<in>set ms. ds \<noteq> [] \<and> list_all (re_digit U) ds \<and> \<not> exceeds_digit_limit U ds \<Longrightarrow>
     emap (py_int U) ms = Inr (map (decimal_value U) ms)"
  by (induction ms) (simp_all add: ebind_def py_int_decimal_value)

lemma emap_py_int_error:
  "\<forall>ds\<in>set ms. ds \<noteq> [] \<and> list_all (re_digit U) ds \<Longrightarrow>
   \<exists>ds\<in>set ms. exceeds_digit_limit U ds \<Longrightarrow> emap (py_int U) ms = Inl ValueError"
proof (induction ms)
  case Nil
  then show ?case by simp
next
  case (Cons m ms)
  show ?case
  proof (cases "exceeds_digit_limit U m")
    case True
    with Cons.prems(1) show ?thesis by (simp add: ebind_def py_int_decimal_value)
  next
    case False
    with Cons.prems have "\<exists>ds\<in>set ms. exceeds_digit_limit U ds" by auto
    with Cons.IH Cons.prems(1) have "emap (py_int U) ms = Inl ValueError" by simp
    with False Cons.prems(1) show ?thesis by (simp add: ebind_def py_int_decimal_value)
  qed
qed

lemma findall_placeholders_digits:
  "\<forall>ds\<in>set (findall_placeholders U text). ds \<noteq> [] \<and> list_all (re_digit U) ds"
  by (simp add: set_findall_placeholders)

text \<open>
  C5, as amended. For every template text and every interpreter: when no placeholder
  \<open>{{n}}\<close> of the text has a numeral with more digits than the interpreter's limit for
  \<open>int\<close>, \<open>get_parameter_count\<close> returns the largest number denoted by the numeral of a
  placeholder of the text, and 0 when the text has no placeholder; when some placeholder
  has such a numeral, it raises \<open>ValueError\<close>; for an empty text and for \<open>None\<close> it
  returns 0.
\<close>

theorem get_parameter_count_max:
  "((\<forall>ds\<in>placeholders U text. \<not> exceeds_digit_limit U ds) \<longrightarrow>
      get_parameter_count U (Some text) =
        Inr (if placeholder_numerals U text = {} then 0 else Max (placeholder_numerals U text))) \<and>
   ((\<exists>ds\<in>placeholders U text. exceeds_digit_limit U ds) \<longrightarrow>
      get_parameter_count U (Some text) = Inl ValueError) \<and>
   get_parameter_count U None = Inr 0 \<and> get_parameter_count U (Some []) = Inr 0"
proof (intro conjI impI)
  let ?ms = "findall_placeholders U text"
  have nums: "placeholder_numerals U text = set (map (decimal_value U) ?ms)"
    by (simp add: placeholder_numerals_def placeholders_findall)
  {
    assume ok: "\<forall>ds\<in>placeholders U text. \<not> exceeds_digit_limit U ds"
    show "get_parameter_count U (Some text) =
        Inr (if placeholder_numerals U text = {} then 0 else Max (placeholder_numerals U text))"
    proof (cases "text = [] \<or> ?ms = []")
      case True
      then have "?ms = []" by auto
      with nums True show ?thesis by (auto simp: get_parameter_count_def)
    next
      case False
      from ok findall_placeholders_digits [of U "text"]
      have "emap (py_int U) ?ms = Inr (map (decimal_value U) ?ms)"
        by (intro emap_py_int_ok) (simp add: placeholders_findall)
      with False nums show ?thesis
        by (simp add: get_parameter_count_def Let_def ebind_def)
    qed
  }
  {
    assume bad: "\<exists>ds\<in>placeholders U text. exceeds_digit_limit U ds"
    then have ne: "?ms \<noteq> []" "text \<noteq> []" by (auto simp: placeholders_findall)
    from bad have "emap (py_int U) ?ms = Inl ValueError"
      by (intro emap_py_int_error findall_placeholders_digits)
         (simp add: placeholders_findall)
    with ne show "get_parameter_count U (Some text) = Inl ValueError"
      by (simp add: get_parameter_count_def Let_def ebind_def)
  }
qed (simp_all add: get_parameter_count_def)

lemmas placeholder_eval = match_placeholder_def re_digit_def digit_value_def is_09_def
  ascii_table_def py_int_def digit_of_def exceeds_digit_limit_def ebind_def

lemma placeholder_length:
  "ds \<in> placeholders U text \<Longrightarrow> length ds + 4 \<le> length text"
proof -
  assume "ds \<in> placeholders U text"
  then have "sublist (lit ''{{'' @ ds @ lit ''}}'') text" by (simp add: placeholders_def)
  then obtain ps ss where "text = ps @ (lit ''{{'' @ ds @ lit ''}}'') @ ss"
    by (auto simp: sublist_def)
  then have "length text = length ps + (length ds + 4) + length ss" by simp
  then show ?thesis by simp
qed

lemma long_numeral_placeholder:
  "replicate 4301 49 \<in> placeholders ascii_table (lit ''{{'' @ replicate 4301 49 @ lit ''}}'')"
proof -
  have "re_digit ascii_table 49" by (simp add: re_digit_def digit_value_def is_09_def)
  then have "list_all (re_digit ascii_table) (replicate 4301 49)"
    by (simp add: list_all_iff)
  moreover have "replicate 4301 (49::nat) \<noteq> []" by simp
  ultimately show ?thesis by (simp add: placeholders_def)
qed

theorem get_parameter_count_max_witness:
  "get_parameter_count ascii_table (Some (lit ''Hi {{1}}, {{12}} {{x}} {{3}}'')) = Inr 12 \<and>
   Max (placeholder_numerals ascii_table (lit ''Hi {{1}}, {{12}} {{x}} {{3}}'')) = 12 \<and>
   exceeds_digit_limit ascii_table (replicate 4301 49) \<and>
   get_parameter_count ascii_table (Some (lit ''{{'' @ replicate 4301 49 @ lit ''}}'')) =
     Inl ValueError"
proof -
  let ?t = "lit ''Hi {{1}}, {{12}} {{x}} {{3}}''"
  have e: "get_parameter_count ascii_table (Some ?t) = Inr 12"
    unfolding get_parameter_count_def Let_def by (simp add: placeholder_eval list_all_iff)
  have "\<not> exceeds_digit_limit ascii_table ds" if "ds \<in> placeholders ascii_table ?t" for ds
    using placeholder_length [OF that]
    by (simp add: exceeds_digit_limit_def ascii_table_def)
  then have ok: "\<forall>ds\<in>placeholders ascii_table ?t. \<not> exceeds_digit_limit ascii_table ds"
    by blast
  from get_parameter_count_max [of ascii_table ?t] ok e
  have m: "Max (placeholder_numerals ascii_table ?t) = 12"
    by (simp split: if_splits)
  have x: "exceeds_digit_limit ascii_table (replicate 4301 49)"
    by (simp add: exceeds_digit_limit_def ascii_table_def)
  with long_numeral_placeholder
  have "\<exists>ds\<in>placeholders ascii_table (lit ''{{'' @ replicate 4301 49 @ lit ''}}'').
      exceeds_digit_limit ascii_table ds" by blast
  with get_parameter_count_max [of ascii_table "lit ''{{'' @ replicate 4301 49 @ lit ''}}''"]
  have "get_parameter_count ascii_table (Some (lit ''{{'' @ replicate 4301 49 @ lit ''}}'')) =
     Inl ValueError" by blast
  with e m x show ?thesis by blast
qed

text \<open>
  The claim as stated fails: in a text whose placeholder has a numeral of 4301 digits,
  \<open>int\<close> raises \<open>ValueError\<close> under the default limit of 4300 digits, and no number is
  returned.
\<close>

theorem get_parameter_count_counterexample:
  "replicate 4301 49 \<in> placeholders ascii_table (lit ''{{'' @ replicate 4301 49 @ lit ''}}'') \<and>
   get_parameter_count ascii_table (Some (lit ''{{'' @ replicate 4301 49 @ lit ''}}'')) =
     Inl ValueError"
proof -
  let ?ds = "replicate 4301 (49::nat)"
  have d: "list_all (re_digit ascii_table) ?ds"
    by (simp add: list_all_iff re_digit_def digit_value_def is_09_def)
  have ne: "?ds \<noteq> []" by simp
  have "match_placeholder ascii_table (lit ''{{'' @ ?ds @ lit ''}}'' @ []) = Some (?ds, [])"
    using ne d by (rule match_placeholder_SomeI)
  then have m: "match_placeholder ascii_table (123 # 123 # ?ds @ [125, 125]) = Some (?ds, [])"
    by simp
  have f: "findall_placeholders ascii_table (lit ''{{'' @ ?ds @ lit ''}}'') = [?ds]"
    using m by simp
  have "exceeds_digit_limit ascii_table ?ds"
    by (simp add: exceeds_digit_limit_def ascii_table_def)
  with ne d have "py_int ascii_table ?ds = Inl ValueError" by (simp add: py_int_def)
  with f have "get_parameter_count ascii_table (Some (lit ''{{'' @ ?ds @ lit ''}}'')) =
     Inl ValueError"
    by (simp add: get_parameter_count_def ebind_def)
  with long_numeral_placeholder show ?thesis by blast
qed

subsection \<open>The sample value parser\<close>

lemma strip_filter_id:
  "\<forall>x\<in>set xs. x \<noteq> [] \<and> py_strip x = x \<Longrightarrow> [py_strip x. x \<leftarrow> xs, py_strip x \<noteq> []] = xs"
  by (induction xs) auto

lemma strip_by_id:
  assumes "s \<noteq> []" and "\<not> P (hd s)" and "\<not> P (last s)"
  shows "strip_by P s = s"
proof -
  from assms(1,3) have "\<not> P (hd (rev s))" by (simp add: hd_rev)
  then have "dropWhile P (rev s) = rev s" by (simp add: dropWhile_eq_self_iff)
  moreover from assms(2) have "dropWhile P s = s" by (simp add: dropWhile_eq_self_iff)
  ultimately show ?thesis by (simp add: strip_by_def lstrip_by_def rstrip_by_def)
qed

text \<open>
  C4, as amended. When the stripped input starts with \<open>[\<close> and ends with \<open>]\<close> and decodes to a
  list, the parser returns the texts \<open>str\<close> gives for the elements, stripped and without
  the blank ones, so a list of strings is returned as it is when none of them is blank or
  has surrounding whitespace; when decoding such an input raises \<open>RecursionError\<close>, the
  parser raises it. For every other input it returns the stripped non-blank pieces of the
  split on \<open>|\<close> when the input contains \<open>|\<close> and either no expected count is given or that
  many pieces were found, and the stripped non-blank pieces of the split on \<open>,\<close>
  otherwise.
\<close>

theorem parse_sample_values_amended:
  "(prefix [91] (py_strip s) \<and> suffix [93] (py_strip s) \<and> loads (py_strip s) = JsonList vs \<longrightarrow>
      parse_sample_values loads (Some s) n =
        Inr [py_strip (py_str v). v \<leftarrow> vs, py_strip (py_str v) \<noteq> []] \<and>
      (vs = map PyStr xs \<and> (\<forall>x\<in>set xs. x \<noteq> [] \<and> py_strip x = x) \<longrightarrow>
         parse_sample_values loads (Some s) n = Inr xs)) \<and>
   (prefix [91] (py_strip s) \<and> suffix [93] (py_strip s) \<and>
      loads (py_strip s) = JsonRecursionError \<longrightarrow>
        parse_sample_values loads (Some s) n = Inl RecursionError) \<and>
   (\<not> (prefix [91] (py_strip s) \<and> suffix [93] (py_strip s) \<and>
        ((\<exists>vs. loads (py_strip s) = JsonList vs) \<or> loads (py_strip s) = JsonRecursionError)) \<longrightarrow>
      parse_sample_values loads (Some s) n =
        Inr (if 124 \<in> set (py_strip s) \<and>
                (n = None \<or>
                 n = Some (length [py_strip p. p \<leftarrow> py_split 124 (py_strip s), py_strip p \<noteq> []]))
             then [py_strip p. p \<leftarrow> py_split 124 (py_strip s), py_strip p \<noteq> []]
             else [py_strip p. p \<leftarrow> py_split 44 (py_strip s), py_strip p \<noteq> []]))"
proof -
  have blank: "py_strip [] = []" by (simp add: py_strip_def strip_by_eq_Nil)
  have ne: "py_strip s \<noteq> [] \<and> s \<noteq> []" if "prefix [91] (py_strip s)"
    using that blank by auto
  have a: "parse_sample_values loads (Some s) n =
        Inr [py_strip (py_str v). v \<leftarrow> vs, py_strip (py_str v) \<noteq> []]"
    if j: "prefix [91] (py_strip s) \<and> suffix [93] (py_strip s) \<and> loads (py_strip s) = JsonList vs"
    using j ne unfolding parse_sample_values_def Let_def by simp
  have b: "parse_sample_values loads (Some s) n = Inr xs"
    if j: "prefix [91] (py_strip s) \<and> suffix [93] (py_strip s) \<and> loads (py_strip s) = JsonList vs"
      and x: "vs = map PyStr xs \<and> (\<forall>x\<in>set xs. x \<noteq> [] \<and> py_strip x = x)"
  proof -
    from x have "[py_strip (py_str v). v \<leftarrow> vs, py_strip (py_str v) \<noteq> []] =
        [py_strip x. x \<leftarrow> xs, py_strip x \<noteq> []]"
      by (simp add: comp_def cong: if_cong)
    also from x have "\<dots> = xs" by (intro strip_filter_id) simp
    finally show ?thesis using a [OF j] by simp
  qed
  have c: "parse_sample_values loads (Some s) n = Inl RecursionError"
    if j: "prefix [91] (py_strip s) \<and> suffix [93] (py_strip s) \<and>
      loads (py_strip s) = JsonRecursionError"
    using j ne unfolding parse_sample_values_def Let_def by simp
  have d: "parse_sample_values loads (Some s) n =
        Inr (if 124 \<in> set (py_strip s) \<and>
                (n = None \<or>
                 n = Some (length [py_strip p. p \<leftarrow> py_split 124 (py_strip s), py_strip p \<noteq> []]))
             then [py_strip p. p \<leftarrow> py_split 124 (py_strip s), py_strip p \<noteq> []]
             else [py_strip p. p \<leftarrow> py_split 44 (py_strip s), py_strip p \<noteq> []])"
    if nj: "\<not> (prefix [91] (py_strip s) \<and> suffix [93] (py_strip s) \<and>
        ((\<exists>vs. loads (py_strip s) = JsonList vs) \<or> loads (py_strip s) = JsonRecursionError))"
  proof (cases "s = [] \<or> py_strip s = []")
    case True
    then have e: "py_strip s = []" using blank by auto
    with True blank show ?thesis by (simp add: parse_sample_values_def)
  next
    case False
    with nj show ?thesis
      unfolding parse_sample_values_def Let_def
      by (cases "loads (py_strip s)") auto
  qed
  from a b c d show ?thesis by blast
qed

lemmas strip_eval = py_strip_def strip_by_def lstrip_by_def rstrip_by_def py_isspace_def

lemma deep_document:
  "py_strip (replicate 100000 91 @ replicate 100000 93) = replicate 100000 91 @ replicate 100000 93"
  "prefix [91::nat] (replicate 100000 91 @ replicate 100000 93)"
  "suffix [93::nat] (replicate 100000 91 @ replicate 100000 93)"
  "json_loads_examples (replicate 100000 91 @ replicate 100000 93) = JsonRecursionError"
proof -
  let ?d = "replicate 100000 (91::nat) @ replicate 100000 93"
  have h: "?d \<noteq> []" "hd ?d = 91" "last ?d = 93" by (simp_all add: hd_append)
  then show "py_strip ?d = ?d"
    unfolding py_strip_def by (intro strip_by_id) (simp_all add: py_isspace_def)
  have "replicate 100000 (91::nat) = 91 # replicate 99999 91"
    by (simp add: replicate_Suc [symmetric] del: replicate_Suc)
  then show "prefix [91] ?d" by simp
  have e: "(100000::nat) = 99999 + 1" by simp
  have "replicate 100000 (93::nat) = replicate 99999 93 @ [93]"
    unfolding e replicate_add by simp
  then have "?d = (replicate 100000 91 @ replicate 99999 93) @ [93]" by simp
  then show "suffix [93] ?d" unfolding suffix_def by blast
  have "length ?d = 200000" by simp
  then have "length ?d \<noteq> length s" if "length s < 100" for s :: pystr using that by simp
  then have "?d \<noteq> s" if "length s < 100" for s :: pystr using that by blast
  then show "json_loads_examples ?d = JsonRecursionError"
    by (simp add: json_loads_examples_def)
qed

theorem parse_sample_values_amended_witness:
  \<open>prefix [91] (py_strip (lit ''["a", "b"]'')) \<and> suffix [93] (py_strip (lit ''["a", "b"]'')) \<and>
   json_loads_examples (py_strip (lit ''["a", "b"]'')) = JsonList (map PyStr [lit ''a'', lit ''b'']) \<and>
   lit ''a'' \<noteq> [] \<and> py_strip (lit ''a'') = lit ''a'' \<and>
   lit ''b'' \<noteq> [] \<and> py_strip (lit ''b'') = lit ''b'' \<and>
   parse_sample_values json_loads_examples (Some (lit ''["a", "b"]'')) None =
     Inr [lit ''a'', lit ''b''] \<and>
   json_loads_examples (py_strip (lit ''[1, null]'')) = JsonList [PyObj (lit ''1''), PyNone] \<and>
   parse_sample_values json_loads_examples (Some (lit ''[1, null]'')) None =
     Inr [lit ''1'', lit ''None''] \<and>
   json_loads_examples (py_strip (replicate 100000 91 @ replicate 100000 93)) =
     JsonRecursionError \<and>
   parse_sample_values json_loads_examples (Some (replicate 100000 91 @ replicate 100000 93)) None =
     Inl RecursionError \<and>
   \<not> (prefix [91] (py_strip (lit ''x | y, z'')) \<and> suffix [93] (py_strip (lit ''x | y, z'')) \<and>
      ((\<exists>vs. json_loads_examples (py_strip (lit ''x | y, z'')) = JsonList vs) \<or>
       json_loads_examples (py_strip (lit ''x | y, z'')) = JsonRecursionError)) \<and>
   parse_sample_values json_loads_examples (Some (lit ''x | y, z'')) None =
     Inr [lit ''x'', lit ''y, z'']\<close>
proof -
  have s1: \<open>py_strip (lit ''["a", "b"]'') = lit ''["a", "b"]''\<close>
    and s2: "py_strip (lit ''x | y, z'') = lit ''x | y, z''"
    and s3: "py_strip (lit ''a'') = lit ''a''" "py_strip (lit ''b'') = lit ''b''"
    and s4: "py_strip (lit ''[1, null]'') = lit ''[1, null]''"
    and s5: "py_strip (lit ''1'') = lit ''1''" "py_strip (lit ''None'') = lit ''None''"
    by (simp_all add: strip_eval)
  have h1: \<open>prefix [91] (py_strip (lit ''["a", "b"]'')) \<and> suffix [93] (py_strip (lit ''["a", "b"]'')) \<and>
     json_loads_examples (py_strip (lit ''["a", "b"]'')) = JsonList (map PyStr [lit ''a'', lit ''b''])\<close>
    unfolding s1 by (simp add: json_loads_examples_def suffix_def)
  have h2: "\<forall>x\<in>set [lit ''a'', lit ''b'']. x \<noteq> [] \<and> py_strip x = x"
    using s3 by simp
  from parse_sample_values_amended [of \<open>lit ''["a", "b"]''\<close> json_loads_examples
      "map PyStr [lit ''a'', lit ''b'']" None "[lit ''a'', lit ''b'']"] h1 h2
  have r1: \<open>parse_sample_values json_loads_examples (Some (lit ''["a", "b"]'')) None =
      Inr [lit ''a'', lit ''b'']\<close> by blast
  have h4: "prefix [91] (py_strip (lit ''[1, null]'')) \<and> suffix [93] (py_strip (lit ''[1, null]'')) \<and>
     json_loads_examples (py_strip (lit ''[1, null]'')) = JsonList [PyObj (lit ''1''), PyNone]"
    unfolding s4 by (simp add: json_loads_examples_def suffix_def)
  from parse_sample_values_amended [of "lit ''[1, null]''" json_loads_examples
      "[PyObj (lit ''1''), PyNone]" None "[]"] h4
  have "parse_sample_values json_loads_examples (Some (lit ''[1, null]'')) None =
      Inr [py_strip (py_str v). v \<leftarrow> [PyObj (lit ''1''), PyNone], py_strip (py_str v) \<noteq> []]"
    by blast
  then have r4: "parse_sample_values json_loads_examples (Some (lit ''[1, null]'')) None =
      Inr [lit ''1'', lit ''None'']"
    using s5 by simp
  let ?d = "replicate 100000 (91::nat) @ replicate 100000 93"
  have h5: "prefix [91] (py_strip ?d) \<and> suffix [93] (py_strip ?d) \<and>
      json_loads_examples (py_strip ?d) = JsonRecursionError"
    by (simp only: deep_document)
  from parse_sample_values_amended [of ?d json_loads_examples "[]" None "[]"] h5
  have r5: "parse_sample_values json_loads_examples (Some ?d) None = Inl RecursionError"
    by blast
  have h3: "\<not> (prefix [91] (py_strip (lit ''x | y, z'')) \<and> suffix [93] (py_strip (lit ''x | y, z'')) \<and>
      ((\<exists>vs. json_loads_examples (py_strip (lit ''x | y, z'')) = JsonList vs) \<or>
       json_loads_examples (py_strip (lit ''x | y, z'')) = JsonRecursionError))"
    unfolding s2 by simp
  have p: "[py_strip p. p \<leftarrow> py_split 124 (py_strip (lit ''x | y, z'')), py_strip p \<noteq> []] =
      [lit ''x'', lit ''y, z'']"
    unfolding s2 by (simp add: strip_eval)
  from parse_sample_values_amended [of "lit ''x | y, z''" json_loads_examples "[]" None "[]"] h3
  have "parse_sample_values json_loads_examples (Some (lit ''x | y, z'')) None =
        Inr (if 124 \<in> set (py_strip (lit ''x | y, z'')) \<and>
            (None = (None :: nat option) \<or>
             None = Some (length [py_strip p. p \<leftarrow> py_split 124 (py_strip (lit ''x | y, z'')), py_strip p \<noteq> []]))
         then [py_strip p. p \<leftarrow> py_split 124 (py_strip (lit ''x | y, z'')), py_strip p \<noteq> []]
         else [py_strip p. p \<leftarrow> py_split 44 (py_strip (lit ''x | y, z'')), py_strip p \<noteq> []])"
    by blast
  then have r2: "parse_sample_values json_loads_examples (Some (lit ''x | y, z'')) None =
      Inr [lit ''x'', lit ''y, z'']"
    unfolding p unfolding s2 by simp
  from h1 s3 h3 h4 h5 r1 r2 r4 r5 show ?thesis by simp
qed

text \<open>
  The claim as stated fails: the list \<open>[" a", ""]\<close> is not returned from its JSON encoding
  (the result is \<open>["a"]\<close>); \<open>a | b\<close> yields \<open>["a", "b"]\<close>, not the pieces \<open>"a "\<close> and \<open>" b"\<close>
  of the split; and \<open>a|b\<close> with expected count 3 is split on commas.
\<close>

theorem parse_sample_values_counterexample:
  \<open>json_loads_examples (lit ''[" a", ""]'') = JsonList (map PyStr [lit '' a'', []]) \<and>
   parse_sample_values json_loads_examples (Some (lit ''[" a", ""]'')) None \<noteq>
     Inr [lit '' a'', []] \<and>
   124 \<in> set (lit ''a | b'') \<and>
   parse_sample_values json_loads_examples (Some (lit ''a | b'')) None \<noteq>
     Inr (py_split 124 (lit ''a | b'')) \<and>
   124 \<in> set (lit ''a|b'') \<and>
   parse_sample_values json_loads_examples (Some (lit ''a|b'')) (Some 3) \<noteq>
     Inr (py_split 124 (lit ''a|b''))\<close>
proof -
  have \<open>parse_sample_values json_loads_examples (Some (lit ''[" a", ""]'')) None =
      Inr [lit ''a'']\<close>
    unfolding parse_sample_values_def Let_def
    by (simp add: strip_eval json_loads_examples_def suffix_def)
  moreover have "parse_sample_values json_loads_examples (Some (lit ''a | b'')) None =
      Inr [lit ''a'', lit ''b'']"
    unfolding parse_sample_values_def Let_def
    by (simp add: strip_eval json_loads_examples_def suffix_def)
  moreover have "parse_sample_values json_loads_examples (Some (lit ''a|b'')) (Some 3) =
      Inr [lit ''a|b'']"
    unfolding parse_sample_values_def Let_def
    by (simp add: strip_eval json_loads_examples_def suffix_def)
  ultimately show ?thesis by (simp add: json_loads_examples_def)
qed

section \<open>Properties of template validation\<close>

subsection \<open>Sequencing\<close>

lemma sat_and_then:
  assumes "outcome_sat E X Q m" and "\<And>x. Q x \<Longrightarrow> outcome_sat E X R (f x)"
  shows "outcome_sat E X R (and_then m f)"
proof (cases m)
  case (Pair es r)
  show ?thesis
  proof (cases r)
    case (Inl e)
    with Pair assms(1) show ?thesis by (simp add: outcome_sat_def and_then_def)
  next
    case (Inr x)
    with Pair assms(1) have "Q x" and es: "list_all E es" by (simp_all add: outcome_sat_def)
    from assms(2) [OF \<open>Q x\<close>] es Pair Inr show ?thesis
      by (cases "f x") (simp add: outcome_sat_def and_then_def)
  qed
qed

lemma sat_pure:
  "(case r of Inl e \<Rightarrow> X e | Inr x \<Rightarrow> Q x) \<Longrightarrow> outcome_sat E X Q (pure r)"
  by (simp add: outcome_sat_def pure_def)

lemma and_then_pure_Inr: "and_then (pure (Inr x)) f = f x"
  by (simp add: and_then_def pure_def split: prod.splits)

lemma and_then_pure_Inl: "and_then (pure (Inl e)) f = ([], Inl e)"
  by (simp add: and_then_def pure_def)

subsection \<open>The steps of validate\<close>

lemma same_core_refl: "same_core doc doc"
  by (simp add: same_core_def)

lemma sat_set_whatsapp_account:
  assumes "same_core doc d" and "X (Throw ''Please set a default outgoing WhatsApp Account'')"
  shows "outcome_sat E X (same_core doc) (pure (set_whatsapp_account env d))"
  using assms by (intro sat_pure) (simp add: set_whatsapp_account_def same_core_def)

lemma sat_set_language_code:
  assumes "same_core doc d"
  shows "outcome_sat E X (same_core doc) (pure (Inr (set_language_code env d)))"
  using assms by (intro sat_pure) (simp add: set_language_code_def same_core_def Let_def)

lemma sat_validate_template_name:
  assumes "same_core doc d" and "X (Throw ''Invalid Template Name'')"
  shows "outcome_sat E X (same_core doc) (pure (validate_template_name U d))"
  using assms by (intro sat_pure) (simp add: validate_template_name_def same_core_def Let_def)

lemma sat_upload_sample:
  assumes "same_core doc d" and "\<And>s. X (Raised s)" and "E UploadSession" and "E UploadMedia"
  shows "outcome_sat E X (same_core doc) (upload_sample env d)"
  using assms by (simp add: upload_sample_def outcome_sat_def split: remote.splits)

lemma sat_validate_body_limit:
  assumes "same_core doc d" and "X (Throw ''Template body exceeds WhatsApp limit'')"
  shows "outcome_sat E X (same_core doc) (pure (validate_body_limit d))"
  using assms by (intro sat_pure) (simp add: validate_body_limit_def Let_def)

lemma sat_validate_header_limit:
  assumes "same_core doc d" and "X (Throw ''Header text exceeds WhatsApp limit'')"
  shows "outcome_sat E X (same_core doc) (pure (validate_header_limit d))"
  using assms by (intro sat_pure) (simp add: validate_header_limit_def)

lemma sat_validate_footer_limit:
  assumes "same_core doc d" and "X (Throw ''Footer text exceeds WhatsApp limit'')"
  shows "outcome_sat E X (same_core doc) (pure (validate_footer_limit d))"
  using assms by (intro sat_pure) (simp add: validate_footer_limit_def)

text \<open>
  Every property of the last two steps, on documents that agree with the input on the
  fields they read, carries over to \<open>validate\<close>.
\<close>

lemma validate_sat:
  assumes tail: "\<And>d. same_core doc d \<Longrightarrow>
      outcome_sat E X R (and_then (pure (validate_sample_values U loads d)) (update_if_allowed U env))"
    and E: "E UploadSession" "E UploadMedia"
    and X: "\<And>s. X (Raised s)" "X (Throw ''Please set a default outgoing WhatsApp Account'')"
      "X (Throw ''Invalid Template Name'')" "X (Throw ''Template body exceeds WhatsApp limit'')"
      "X (Throw ''Header text exceeds WhatsApp limit'')"
      "X (Throw ''Footer text exceeds WhatsApp limit'')"
  shows "outcome_sat E X R (validate U loads env doc)"
  unfolding validate_def
proof (rule sat_and_then [where Q = "same_core doc"])
  show "outcome_sat E X (same_core doc) (pure (set_whatsapp_account env doc))"
    using same_core_refl X(2) by (rule sat_set_whatsapp_account)
next
  fix d1 assume d1: "same_core doc d1"
  show "outcome_sat E X R
     (and_then (pure (Inr (set_language_code env d1))) (\<lambda>doc.
      and_then (pure (validate_template_name U doc)) (\<lambda>doc.
      and_then (upload_sample env doc) (\<lambda>doc.
      and_then (pure (validate_body_limit doc)) (\<lambda>doc.
      and_then (pure (validate_header_limit doc)) (\<lambda>doc.
      and_then (pure (validate_footer_limit doc)) (\<lambda>doc.
      and_then (pure (validate_sample_values U loads doc)) (\<lambda>doc.
      update_if_allowed U env doc))))))))"
  proof (rule sat_and_then [where Q = "same_core doc"])
    show "outcome_sat E X (same_core doc) (pure (Inr (set_language_code env d1)))"
      using d1 by (rule sat_set_language_code)
  next
    fix d2 assume d2: "same_core doc d2"
    show "outcome_sat E X R
       (and_then (pure (validate_template_name U d2)) (\<lambda>doc.
        and_then (upload_sample env doc) (\<lambda>doc.
        and_then (pure (validate_body_limit doc)) (\<lambda>doc.
        and_then (pure (validate_header_limit doc)) (\<lambda>doc.
        and_then (pure (validate_footer_limit doc)) (\<lambda>doc.
        and_then (pure (validate_sample_values U loads doc)) (\<lambda>doc.
        update_if_allowed U env doc)))))))"
    proof (rule sat_and_then [where Q = "same_core doc"])
      show "outcome_sat E X (same_core doc) (pure (validate_template_name U d2))"
        using d2 X(3) by (rule sat_validate_template_name)
    next
      fix d3 assume d3: "same_core doc d3"
      show "outcome_sat E X R
         (and_then (upload_sample env d3) (\<lambda>doc.
          and_then (pure (validate_body_limit doc)) (\<lambda>doc.
          and_then (pure (validate_header_limit doc)) (\<lambda>doc.
          and_then (pure (validate_footer_limit doc)) (\<lambda>doc.
          and_then (pure (validate_sample_values U loads doc)) (\<lambda>doc.
          update_if_allowed U env doc))))))"
      proof (rule sat_and_then [where Q = "same_core doc"])
        show "outcome_sat E X (same_core doc) (upload_sample env d3)"
          using d3 X(1) E by (rule sat_upload_sample)
      next
        fix d4 assume d4: "same_core doc d4"
        show "outcome_sat E X R
           (and_then (pure (validate_body_limit d4)) (\<lambda>doc.
            and_then (pure (validate_header_limit doc)) (\<lambda>doc.
            and_then (pure (validate_footer_limit doc)) (\<lambda>doc.
            and_then (pure (validate_sample_values U loads doc)) (\<lambda>doc.
            update_if_allowed U env doc)))))"
        proof (rule sat_and_then [where Q = "same_core doc"])
          show "outcome_sat E X (same_core doc) (pure (validate_body_limit d4))"
            using d4 X(4) by (rule sat_validate_body_limit)
        next
          fix d5 assume d5: "same_core doc d5"
          show "outcome_sat E X R
             (and_then (pure (validate_header_limit d5)) (\<lambda>doc.
              and_then (pure (validate_footer_limit doc)) (\<lambda>doc.
              and_then (pure (validate_sample_values U loads doc)) (\<lambda>doc.
              update_if_allowed U env doc))))"
          proof (rule sat_and_then [where Q = "same_core doc"])
            show "outcome_sat E X (same_core doc) (pure (validate_header_limit d5))"
              using d5 X(5) by (rule sat_validate_header_limit)
          next
            fix d6 assume d6: "same_core doc d6"
            show "outcome_sat E X R
               (and_then (pure (validate_footer_limit d6)) (\<lambda>doc.
                and_then (pure (validate_sample_values U loads doc)) (\<lambda>doc.
                update_if_allowed U env doc)))"
            proof (rule sat_and_then [where Q = "same_core doc"])
              show "outcome_sat E X (same_core doc) (pure (validate_footer_limit d6))"
                using d6 X(6) by (rule sat_validate_footer_limit)
            next
              fix d7 assume "same_core doc d7"
              then have "outcome_sat E X R (and_then (pure (validate_sample_values U loads d7))
                  (update_if_allowed U env))" by (rule tail)
              then show "outcome_sat E X R
                 (and_then (pure (validate_sample_values U loads d7)) (\<lambda>doc.
                  update_if_allowed U env doc))" .
            qed
          qed
        qed
      qed
    qed
  qed
qed

subsection \<open>The last two steps\<close>

lemma validate_sample_values_Inr:
  "validate_sample_values U loads d = Inr d' \<Longrightarrow> d' = d"
  by (auto simp: validate_sample_values_def ebind_def split: if_splits sum.splits)

lemma snd_update_if_allowed: "snd (update_if_allowed U env d) = Inr d"
  by (simp add: update_if_allowed_def split: prod.splits sum.splits)

lemma upper_submitted:
  "py_upper U (lit ''PENDING'') = lit ''PENDING''"
  "py_upper U (lit ''APPROVED'') = lit ''APPROVED''"
  "py_upper U (lit ''REJECTED'') = lit ''REJECTED''"
  by (simp_all add: py_upper_def is_az_def)

lemma update_if_allowed_submitted:
  assumes "\<not> is_new d" and "truthy (template_id d)"
    and "status d \<in> {Some (lit ''PENDING''), Some (lit ''APPROVED''), Some (lit ''REJECTED'')}"
  shows "update_if_allowed U env d = ([], Inr d)"
proof -
  from assms(3) have "truthy (status d)" by (auto simp: truthy_def)
  moreover from assms(3) have "py_upper U (the (status d)) \<in>
      {lit ''PENDING'', lit ''APPROVED'', lit ''REJECTED''}"
    using upper_submitted [of U] by auto
  ultimately show ?thesis using assms(1,2) by (simp add: update_if_allowed_def)
qed

text \<open>
  C6. For a saved template with a provider id whose status is \<open>PENDING\<close>, \<open>APPROVED\<close> or
  \<open>REJECTED\<close>, \<open>validate\<close> makes no update request, whatever the environment answers, and
  the document it returns has the same provider id.
\<close>

theorem validate_keeps_submitted_template:
  assumes "\<not> is_new doc" and "truthy (template_id doc)"
    and "status doc \<in> {Some (lit ''PENDING''), Some (lit ''APPROVED''), Some (lit ''REJECTED'')}"
  shows "(\<forall>i. UpdateTemplate i \<notin> set (fst (validate U loads env doc))) \<and>
         (\<forall>d. snd (validate U loads env doc) = Inr d \<longrightarrow> template_id d = template_id doc)"
proof -
  let ?E = "\<lambda>e. \<forall>i. e \<noteq> UpdateTemplate i"
  let ?R = "\<lambda>d. template_id d = template_id doc"
  have "outcome_sat ?E (\<lambda>e. True) ?R (validate U loads env doc)"
  proof (rule validate_sat)
    fix d assume d: "same_core doc d"
    with assms have g: "\<not> is_new d" "truthy (template_id d)"
      "status d \<in> {Some (lit ''PENDING''), Some (lit ''APPROVED''), Some (lit ''REJECTED'')}"
      by (simp_all add: same_core_def)
    show "outcome_sat ?E (\<lambda>e. True) ?R
        (and_then (pure (validate_sample_values U loads d)) (update_if_allowed U env))"
    proof (cases "validate_sample_values U loads d")
      case (Inl e)
      then show ?thesis by (simp add: and_then_pure_Inl outcome_sat_def)
    next
      case (Inr d')
      then have "d' = d" by (rule validate_sample_values_Inr)
      with Inr d update_if_allowed_submitted [OF g, of U env] show ?thesis
        by (simp add: and_then_pure_Inr outcome_sat_def same_core_def)
    qed
  qed simp_all
  then show ?thesis by (auto simp: outcome_sat_def list_all_iff split: sum.splits)
qed

lemma and_then_Nil_Inr: "and_then ([], Inr x) f = f x"
  by (simp add: and_then_def split: prod.splits)

lemma validate_steps:
  assumes "set_whatsapp_account env doc = Inr doc"
    and "set_language_code env doc = doc"
    and "validate_template_name U doc = Inr doc"
    and "upload_sample env doc = ([], Inr doc)"
    and "validate_body_limit doc = Inr doc"
    and "validate_header_limit doc = Inr doc"
    and "validate_footer_limit doc = Inr doc"
  shows "validate U loads env doc =
     and_then (pure (validate_sample_values U loads doc)) (update_if_allowed U env)"
  unfolding validate_def using assms by (simp add: and_then_pure_Inr and_then_Nil_Inr)


lemma approved_doc_steps:
  "set_whatsapp_account example_env approved_doc = Inr approved_doc"
  "set_language_code example_env approved_doc = approved_doc"
  "upload_sample example_env approved_doc = ([], Inr approved_doc)"
  "validate_body_limit approved_doc = Inr approved_doc"
  "validate_header_limit approved_doc = Inr approved_doc"
  "validate_footer_limit approved_doc = Inr approved_doc"
  by (simp_all add: set_whatsapp_account_def set_language_code_def upload_sample_def
      validate_body_limit_def validate_header_limit_def validate_footer_limit_def
      approved_doc_def example_env_def truthy_def)

lemma approved_doc_name:
  "validate_template_name ascii_table approved_doc = Inr approved_doc"
proof -
  have "sanitize_template_name ascii_table (Some (lit ''order_update'')) = lit ''order_update''"
    unfolding sanitize_template_name_def Let_def by (simp add: template_name_eval)
  moreover have "py_replace SP (lit ''_'') (py_lower ascii_table (lit ''order_update'')) =
      lit ''order_update''"
    by (simp add: py_replace_def py_lower_def is_AZ_def)
  moreover have "matches_template_name_re (lit ''order_update'')"
    by (simp add: matches_template_name_re_def name_char_def is_az_def is_09_def)
  ultimately show ?thesis
    by (simp add: validate_template_name_def approved_doc_def truthy_def Let_def)
qed

lemma approved_doc_samples:
  "validate_sample_values ascii_table loads approved_doc = Inr approved_doc"
proof -
  have "get_parameter_count ascii_table (Some (lit ''Your order has shipped'')) = Inr 0"
    unfolding get_parameter_count_def Let_def by (simp add: placeholder_eval)
  then show ?thesis
    by (simp add: validate_sample_values_def approved_doc_def truthy_def ebind_def)
qed

theorem validate_keeps_submitted_template_witness:
  "\<not> is_new approved_doc \<and> truthy (template_id approved_doc) \<and>
   status approved_doc = Some (lit ''APPROVED'') \<and>
   UpdateTemplate (template_id approved_doc) \<notin>
     set (fst (validate ascii_table json_loads_examples example_env approved_doc)) \<and>
   snd (validate ascii_table json_loads_examples example_env approved_doc) = Inr approved_doc"
proof -
  have h: "\<not> is_new approved_doc" "truthy (template_id approved_doc)"
    "status approved_doc \<in> {Some (lit ''PENDING''), Some (lit ''APPROVED''), Some (lit ''REJECTED'')}"
    and s: "status approved_doc = Some (lit ''APPROVED'')"
    by (simp_all add: approved_doc_def truthy_def)
  have "validate ascii_table json_loads_examples example_env approved_doc =
      and_then (pure (validate_sample_values ascii_table json_loads_examples approved_doc))
        (update_if_allowed ascii_table example_env)"
    by (rule validate_steps) (rule approved_doc_steps approved_doc_name)+
  also have "\<dots> = update_if_allowed ascii_table example_env approved_doc"
    by (simp only: approved_doc_samples and_then_pure_Inr)
  finally have "snd (validate ascii_table json_loads_examples example_env approved_doc) =
      Inr approved_doc" by (simp only: snd_update_if_allowed)
  with validate_keeps_submitted_template [OF h, of ascii_table json_loads_examples example_env]
    h(1,2) s show ?thesis by blast
qed

subsection \<open>Sample values in validate\<close>

lemma validate_sample_values_Inl:
  assumes "get_parameter_count U (template d) = Inr n" and "0 < n"
    and "\<not> truthy (sample_values d) \<or>
      (\<forall>xs. parse_sample_values loads (sample_values d) (Some n) = Inr xs \<longrightarrow> length xs \<noteq> n)"
  shows "isl (validate_sample_values U loads d)"
proof -
  from assms(1,2) have "truthy (template d)"
    by (cases "template d") (auto simp: truthy_def get_parameter_count_def)
  with assms show ?thesis
    by (cases "parse_sample_values loads (sample_values d) (Some n)")
       (auto simp: validate_sample_values_def ebind_def)
qed

lemma validate_sample_values_pass:
  assumes "get_parameter_count U (template d) = Inr n"
    and "truthy (sample_values d)"
    and "parse_sample_values loads (sample_values d) (Some n) = Inr xs" and "length xs = n"
  shows "validate_sample_values U loads d = Inr d"
  using assms by (simp add: validate_sample_values_def ebind_def)

text \<open>
  C9, as amended. For a template whose parameter count is positive (\<open>get_parameter_count\<close>
  returns a number \<open>n\<close> that is at least 1), \<open>validate\<close> raises when the sample values are
  missing or the parser does not return \<open>n\<close> sample values; when it returns \<open>n\<close> of them,
  the sample value check passes and \<open>validate\<close> raises neither of its two errors.
\<close>

theorem validate_requires_sample_values:
  assumes "get_parameter_count U (template doc) = Inr n" and "0 < n"
  shows
    "(\<not> truthy (sample_values doc) \<or>
      (\<forall>xs. parse_sample_values loads (sample_values doc) (Some n) = Inr xs \<longrightarrow> length xs \<noteq> n)
        \<longrightarrow> isl (snd (validate U loads env doc))) \<and>
     (truthy (sample_values doc) \<and>
      (\<exists>xs. parse_sample_values loads (sample_values doc) (Some n) = Inr xs \<and> length xs = n)
        \<longrightarrow> validate_sample_values U loads doc = Inr doc \<and>
            snd (validate U loads env doc) \<noteq> Inl (Throw ''Sample Values Required'') \<and>
            snd (validate U loads env doc) \<noteq> Inl (Throw ''Sample Values Mismatch''))"
proof (intro conjI impI)
  assume bad: "\<not> truthy (sample_values doc) \<or>
      (\<forall>xs. parse_sample_values loads (sample_values doc) (Some n) = Inr xs \<longrightarrow> length xs \<noteq> n)"
  have "outcome_sat (\<lambda>e. True) (\<lambda>e. True) (\<lambda>d. False) (validate U loads env doc)"
  proof (rule validate_sat)
    fix d assume "same_core doc d"
    then have "template d = template doc" "sample_values d = sample_values doc"
      by (simp_all add: same_core_def)
    with assms bad have "isl (validate_sample_values U loads d)"
      by (intro validate_sample_values_Inl [where n = n]) simp_all
    then obtain e where "validate_sample_values U loads d = Inl e"
      by (cases "validate_sample_values U loads d") auto
    then show "outcome_sat (\<lambda>e. True) (\<lambda>e. True) (\<lambda>d. False)
        (and_then (pure (validate_sample_values U loads d)) (update_if_allowed U env))"
      by (simp add: and_then_pure_Inl outcome_sat_def)
  qed simp_all
  then show "isl (snd (validate U loads env doc))"
    by (cases "snd (validate U loads env doc)") (auto simp: outcome_sat_def)
next
  assume good: "truthy (sample_values doc) \<and>
      (\<exists>xs. parse_sample_values loads (sample_values doc) (Some n) = Inr xs \<and> length xs = n)"
  then obtain xs where t: "truthy (sample_values doc)"
    and xs: "parse_sample_values loads (sample_values doc) (Some n) = Inr xs" "length xs = n"
    by blast
  from assms(1) t xs show "validate_sample_values U loads doc = Inr doc"
    by (rule validate_sample_values_pass)
  let ?X = "\<lambda>e. e \<noteq> Throw ''Sample Values Required'' \<and> e \<noteq> Throw ''Sample Values Mismatch''"
  have "outcome_sat (\<lambda>e. True) ?X (\<lambda>d. True) (validate U loads env doc)"
  proof (rule validate_sat)
    fix d assume "same_core doc d"
    then have "template d = template doc" "sample_values d = sample_values doc"
      by (simp_all add: same_core_def)
    with assms(1) t xs have "validate_sample_values U loads d = Inr d"
      by (intro validate_sample_values_pass [where n = n and xs = xs]) simp_all
    then show "outcome_sat (\<lambda>e. True) ?X (\<lambda>d. True)
        (and_then (pure (validate_sample_values U loads d)) (update_if_allowed U env))"
      by (simp add: and_then_pure_Inr outcome_sat_def snd_update_if_allowed list_all_iff)
  qed simp_all
  then show "snd (validate U loads env doc) \<noteq> Inl (Throw ''Sample Values Required'')"
    and "snd (validate U loads env doc) \<noteq> Inl (Throw ''Sample Values Mismatch'')"
    by (auto simp: outcome_sat_def split: sum.splits)
qed

lemma greeting_name:
  assumes "template_name d = Some (lit ''greeting'')" and "actual_name d = Some (lit ''greeting'')"
  shows "validate_template_name ascii_table d = Inr d"
proof -
  have "sanitize_template_name ascii_table (Some (lit ''greeting'')) = lit ''greeting''"
    unfolding sanitize_template_name_def Let_def by (simp add: template_name_eval)
  moreover have "py_replace SP (lit ''_'') (py_lower ascii_table (lit ''greeting'')) =
      lit ''greeting''"
    by (simp add: py_replace_def py_lower_def is_AZ_def)
  moreover have "matches_template_name_re (lit ''greeting'')"
    by (simp add: matches_template_name_re_def name_char_def is_az_def is_09_def)
  ultimately show ?thesis using assms
    by (simp add: validate_template_name_def truthy_def Let_def)
qed

lemma two_param_doc_steps:
  "set_whatsapp_account example_env two_param_doc = Inr two_param_doc"
  "set_language_code example_env two_param_doc = two_param_doc"
  "validate_template_name ascii_table two_param_doc = Inr two_param_doc"
  "upload_sample example_env two_param_doc = ([], Inr two_param_doc)"
  "validate_body_limit two_param_doc = Inr two_param_doc"
  "validate_header_limit two_param_doc = Inr two_param_doc"
  "validate_footer_limit two_param_doc = Inr two_param_doc"
  by (simp_all add: set_whatsapp_account_def set_language_code_def upload_sample_def
      validate_body_limit_def validate_header_limit_def validate_footer_limit_def
      greeting_name two_param_doc_def example_env_def truthy_def)

lemma zero_placeholder_doc_steps:
  "set_whatsapp_account example_env zero_placeholder_doc = Inr zero_placeholder_doc"
  "set_language_code example_env zero_placeholder_doc = zero_placeholder_doc"
  "validate_template_name ascii_table zero_placeholder_doc = Inr zero_placeholder_doc"
  "upload_sample example_env zero_placeholder_doc = ([], Inr zero_placeholder_doc)"
  "validate_body_limit zero_placeholder_doc = Inr zero_placeholder_doc"
  "validate_header_limit zero_placeholder_doc = Inr zero_placeholder_doc"
  "validate_footer_limit zero_placeholder_doc = Inr zero_placeholder_doc"
  by (simp_all add: set_whatsapp_account_def set_language_code_def upload_sample_def
      validate_body_limit_def validate_header_limit_def validate_footer_limit_def
      greeting_name zero_placeholder_doc_def example_env_def truthy_def)

theorem validate_requires_sample_values_witness:
  "get_parameter_count ascii_table (template two_param_doc) = Inr 2 \<and>
   truthy (sample_values two_param_doc) \<and>
   parse_sample_values json_loads_examples (sample_values two_param_doc) (Some 2) =
     Inr [lit ''Ann'', lit ''today''] \<and>
   validate_sample_values ascii_table json_loads_examples two_param_doc = Inr two_param_doc \<and>
   snd (validate ascii_table json_loads_examples example_env two_param_doc) = Inr two_param_doc \<and>
   \<not> truthy (sample_values (two_param_doc\<lparr>sample_values := None\<rparr>)) \<and>
   isl (snd (validate ascii_table json_loads_examples example_env
     (two_param_doc\<lparr>sample_values := None\<rparr>))) \<and>
   parse_sample_values json_loads_examples
     (sample_values (two_param_doc\<lparr>sample_values := Some (lit ''Ann'')\<rparr>)) (Some 2) =
     Inr [lit ''Ann''] \<and>
   isl (snd (validate ascii_table json_loads_examples example_env
     (two_param_doc\<lparr>sample_values := Some (lit ''Ann'')\<rparr>)))"
proof -
  have c: "get_parameter_count ascii_table (template two_param_doc) = Inr 2"
    unfolding get_parameter_count_def Let_def
    by (simp add: placeholder_eval two_param_doc_def)
  have p: "parse_sample_values json_loads_examples (sample_values two_param_doc) (Some 2) =
      Inr [lit ''Ann'', lit ''today'']"
    unfolding parse_sample_values_def Let_def
    by (simp add: two_param_doc_def strip_eval json_loads_examples_def)
  have t: "truthy (sample_values two_param_doc)"
    by (simp add: two_param_doc_def truthy_def)
  have l: "\<exists>xs. parse_sample_values json_loads_examples (sample_values two_param_doc) (Some 2) =
      Inr xs \<and> length xs = 2"
    unfolding p by simp
  have z: "0 < (2::nat)" by simp
  from validate_requires_sample_values [OF c z, of json_loads_examples example_env] t l
  have v: "validate_sample_values ascii_table json_loads_examples two_param_doc = Inr two_param_doc"
    by blast
  have "validate ascii_table json_loads_examples example_env two_param_doc =
      and_then (pure (validate_sample_values ascii_table json_loads_examples two_param_doc))
        (update_if_allowed ascii_table example_env)"
    by (rule validate_steps) (rule two_param_doc_steps)+
  then have r: "snd (validate ascii_table json_loads_examples example_env two_param_doc) =
      Inr two_param_doc"
    by (simp only: v and_then_pure_Inr snd_update_if_allowed)
  let ?d = "two_param_doc\<lparr>sample_values := None\<rparr>"
  have c': "get_parameter_count ascii_table (template ?d) = Inr 2" using c by simp
  have n: "\<not> truthy (sample_values ?d)" by (simp add: truthy_def)
  from validate_requires_sample_values [OF c' z, of json_loads_examples example_env] n
  have i: "isl (snd (validate ascii_table json_loads_examples example_env ?d))" by blast
  let ?m = "two_param_doc\<lparr>sample_values := Some (lit ''Ann'')\<rparr>"
  have c'': "get_parameter_count ascii_table (template ?m) = Inr 2" using c by simp
  have p': "parse_sample_values json_loads_examples (sample_values ?m) (Some 2) =
      Inr [lit ''Ann'']"
    unfolding parse_sample_values_def Let_def
    by (simp add: strip_eval json_loads_examples_def)
  then have "\<forall>xs. parse_sample_values json_loads_examples (sample_values ?m) (Some 2) = Inr xs
      \<longrightarrow> length xs \<noteq> 2" by simp
  with validate_requires_sample_values [OF c'' z, of json_loads_examples example_env]
  have j: "isl (snd (validate ascii_table json_loads_examples example_env ?m))" by blast
  from c t p v r n i p' j show ?thesis by blast
qed

text \<open>
  The claim as stated fails: the body \<open>Hello {{0}}\<close> contains a placeholder, its parameter
  count is 0, and the template is validated without sample values.
\<close>

theorem validate_requires_sample_values_counterexample:
  "sublist (lit ''{{0}}'') (the (template zero_placeholder_doc)) \<and>
   sample_values zero_placeholder_doc = None \<and>
   validate ascii_table json_loads_examples example_env zero_placeholder_doc =
     ([], Inr zero_placeholder_doc)"
proof -
  have c: "get_parameter_count ascii_table (template zero_placeholder_doc) = Inr 0"
    unfolding get_parameter_count_def Let_def
    by (simp add: placeholder_eval zero_placeholder_doc_def)
  then have v: "validate_sample_values ascii_table json_loads_examples zero_placeholder_doc =
      Inr zero_placeholder_doc"
    by (simp add: validate_sample_values_def ebind_def)
  have "validate ascii_table json_loads_examples example_env zero_placeholder_doc =
      and_then (pure (validate_sample_values ascii_table json_loads_examples zero_placeholder_doc))
        (update_if_allowed ascii_table example_env)"
    by (rule validate_steps) (rule zero_placeholder_doc_steps)+
  also have "\<dots> = update_if_allowed ascii_table example_env zero_placeholder_doc"
    by (simp only: v and_then_pure_Inr)
  also have "\<dots> = ([], Inr zero_placeholder_doc)"
    by (simp add: update_if_allowed_def zero_placeholder_doc_def)
  finally have r: "validate ascii_table json_loads_examples example_env zero_placeholder_doc =
     ([], Inr zero_placeholder_doc)" .
  have "lit ''Hello {{0}}'' = lit ''Hello '' @ lit ''{{0}}'' @ []" by simp
  then have "sublist (lit ''{{0}}'') (lit ''Hello {{0}}'')"
    unfolding sublist_def by blast
  then have "sublist (lit ''{{0}}'') (the (template zero_placeholder_doc))"
    by (simp add: zero_placeholder_doc_def)
  with r show ?thesis by (simp add: zero_placeholder_doc_def)
qed

section \<open>Properties of the webhook\<close>

subsection \<open>The handshake\<close>

text \<open>
  The handshake answers, with the challenge and status 200, exactly when an account is
  named by the supplied token and the verify token of that account is the supplied token
  too.
\<close>

lemma get_answers_iff:
  "get form_dict accounts = Inr r \<longleftrightarrow>
     r = \<lparr>body = form_dict ''hub.challenge'', status_code = 200\<rparr> \<and>
     (\<exists>t a. form_dict ''hub.verify_token'' = Some t \<and> t \<noteq> [] \<and>
        find (\<lambda>a. account_name a = t) accounts = Some a \<and> webhook_verify_token a = Some t)"
  unfolding get_def Let_def db_get_value_def
  by (auto simp: truthy_def split: option.splits)

lemma get_no_account_named:
  assumes "form_dict ''hub.verify_token'' = Some t"
    and "\<forall>a\<in>set accounts. account_name a \<noteq> t"
  shows "get form_dict accounts = Inl (Throw ''No matching WhatsApp account'')"
proof -
  from assms(2) have "find (\<lambda>a. account_name a = t) accounts = None"
    by (simp add: find_None_iff)
  with assms(1) show ?thesis by (simp add: get_def db_get_value_def truthy_def)
qed

text \<open>
  C8. Where the claim fails: the account \<open>Main\<close> has the verify token \<open>s3cret\<close>, and the
  request supplies \<open>hub.verify_token = s3cret\<close>, the token of that account. The token is
  looked up as the name of an account, no account is named \<open>s3cret\<close>, and the handler
  raises instead of answering with the challenge.
\<close>

theorem get_refuses_matching_token:
  "handshake_request ''hub.verify_token'' = webhook_verify_token main_account \<and>
   handshake_request ''hub.challenge'' = Some (lit ''1158201444'') \<and>
   get handshake_request [main_account] = Inl (Throw ''No matching WhatsApp account'')"
  by (simp add: get_def db_get_value_def handshake_request_def main_account_def truthy_def)

text \<open>
  C3. Where the claim fails: for the empty payload \<open>{}\<close> the first read of
  \<open>data["entry"]\<close> raises \<open>KeyError\<close>, the handler of that \<open>KeyError\<close> reads \<open>data["entry"]\<close>
  again, and the second \<open>KeyError\<close> leaves \<open>post\<close>; for \<open>{"entry": []}\<close> an \<open>IndexError\<close>
  leaves it, which the handler does not catch. Only the raw payload has been logged. A
  change of the field \<open>messages\<close> whose value has neither messages nor statuses makes
  \<open>update_message_status\<close> raise \<open>KeyError\<close>.
\<close>

theorem post_raises_on_malformed_payload:
  "post env (JDict []) = ([LogPayload (JDict [])], Some KeyError) \<and>
   post env (JDict [(lit ''entry'', JList [])]) =
     ([LogPayload (JDict [(lit ''entry'', JList [])])], Some IndexError) \<and>
   post example_webhook_env payload_without_statuses =
     ([LogPayload payload_without_statuses], Some KeyError)"
proof -
  have a: "post env (JDict []) = ([LogPayload (JDict [])], Some KeyError)"
    by (simp add: post_def messages_and_phone_id_def entry_messages_def
        alternate_messages_def ebind_def)
  have b: "post env (JDict [(lit ''entry'', JList [])]) =
     ([LogPayload (JDict [(lit ''entry'', JList [])])], Some IndexError)"
    by (simp add: post_def messages_and_phone_id_def entry_messages_def ebind_def)
  have m: "messages_and_phone_id payload_without_statuses =
      Inr (JList [], JStr (lit ''1029384756''))"
    by (simp add: payload_without_statuses_def messages_and_phone_id_def entry_messages_def
        entry_phone_id_def ebind_def)
  have n: "sender_profile_name payload_without_statuses = Inr JNull"
    by (simp add: payload_without_statuses_def sender_profile_name_def change_contacts_def
        ebind_def)
  have s: "status_change example_webhook_env payload_without_statuses = ([], Some KeyError)"
    by (simp add: payload_without_statuses_def status_change_def update_status_def
        update_message_status_def ebind_def)
  have c: "post example_webhook_env payload_without_statuses =
     ([LogPayload payload_without_statuses], Some KeyError)"
  proof -
    have "account_for_phone example_webhook_env (JStr (lit ''1029384756'')) \<noteq> None"
      by (simp add: example_webhook_env_def)
    then show ?thesis unfolding post_def Let_def m n by (simp add: s)
  qed
  from a b c show ?thesis by blast
qed

section \<open>Properties of notify\<close>

subsection \<open>The outcome log of notify\<close>

lemma ebind_Inr_iff:
  "ebind m f = Inr y \<longleftrightarrow> (\<exists>x. m = Inr x \<and> f x = Inr y)"
  by (cases m) (simp_all add: ebind_def)

lemma message_id_non_json: "isl (message_id (json_of_non_json r))"
proof (cases r)
  case (RQuery q)
  show ?thesis
  proof (cases "map_of (map (\<lambda>(k, vs). (k, JList (map JStr vs))) q) (lit ''messages'')")
    case None
    with RQuery show ?thesis by (simp add: message_id_def ebind_def)
  next
    case (Some v)
    then have "(lit ''messages'', v) \<in> set (map (\<lambda>(k, vs). (k, JList (map JStr vs))) q)"
      by (rule map_of_SomeD)
    then obtain vs where v: "v = JList (map JStr vs)" by auto
    show ?thesis
    proof (cases vs)
      case Nil
      with RQuery Some v show ?thesis by (simp add: message_id_def ebind_def)
    next
      case (Cons a as)
      with RQuery Some v show ?thesis by (simp add: message_id_def ebind_def)
    qed
  qed
qed (simp_all add: message_id_def ebind_def)

lemma set_property_no_log: "list_all (\<lambda>e. \<not> is_log e) (fst (set_property env self doc_data))"
  by (simp add: set_property_def split: option.splits)

lemma notify_try_no_log:
  "list_all (\<lambda>e. \<not> is_log e) (fst (notify_try env self data doc_data posted))"
  using set_property_no_log [of env self doc_data]
  by (auto simp: notify_try_def split: sum.splits option.splits prod.splits
      dest!: ebind_Inr_iff [THEN iffD1])

lemma notify_try_success:
  assumes "snd (notify_try env self data doc_data posted) = None"
  shows "\<exists>response. posted = Inr response \<and> \<not> isl (message_id response)"
proof -
  from assms obtain new_doc where "ebind posted (\<lambda>response.
             ebind (template_parameters data) (\<lambda>parameters.
             ebind (py_item data (lit ''to'')) (\<lambda>to.
             ebind (message_id response) (\<lambda>mid. Inr (SaveMessage to mid parameters))))) =
      Inr new_doc"
    by (auto simp: notify_try_def split: sum.splits option.splits prod.splits)
  then show ?thesis by (auto simp: ebind_Inr_iff)
qed

lemma make_post_request_Inr:
  assumes "make_post_request x flag = (flag', Inr response)"
  shows "\<exists>r. flag' = Some r \<and>
    (response_json r = Inr response \<or> response = json_of_non_json (other_return r))"
  using assms by (auto simp: make_post_request_def split: exchange.splits if_splits)

lemma count_log_append:
  "list_all (\<lambda>e. \<not> is_log e) es \<Longrightarrow> length (filter is_log (es @ [InsertLog m])) = 1"
  by (induction es) auto

lemma notify_resolved:
  assumes "(if truthy template_account then find_account env (the template_account)
            else outgoing_account env) \<noteq> None"
    and "get_password_error env = None"
  shows "notify env self data doc_data template_account =
    (case make_post_request (provider_exchange env) (prior_request env) of
       (flag, posted) \<Rightarrow>
         (case notify_try env self data doc_data posted of
            (es, None) \<Rightarrow>
              (case ebind (case flag of None \<Rightarrow> Inl AttributeError
                           | Some r \<Rightarrow> Inr r) response_json of
                 Inl e \<Rightarrow> (es, Some e)
               | Inr meta \<Rightarrow> (es @ [InsertLog (ResponseBody meta)], None))
          | (es, Some e) \<Rightarrow>
              (case notify_except flag e of
                 (error_message, raised) \<Rightarrow> (es @ [InsertLog error_message], raised))))"
proof (cases "truthy template_account")
  case True
  with assms obtain a where "find_account env (the template_account) = Some a" by auto
  with True assms(2) show ?thesis by (simp add: notify_def)
next
  case False
  with assms obtain a where "outgoing_account env = Some a" by auto
  with False assms(2) show ?thesis by (simp add: notify_def)
qed

lemma notify_logs_once:
  assumes "(if truthy template_account then find_account env (the template_account)
            else outgoing_account env) \<noteq> None"
    and "get_password_error env = None"
  shows "length (filter is_log (fst (notify env self data doc_data template_account))) = 1"
proof -
  obtain flag posted where mp: "make_post_request (provider_exchange env) (prior_request env) =
      (flag, posted)" by (cases "make_post_request (provider_exchange env) (prior_request env)")
  obtain es r where nt: "notify_try env self data doc_data posted = (es, r)"
    by (cases "notify_try env self data doc_data posted")
  from notify_try_no_log [of env self data doc_data posted] nt
  have es: "list_all (\<lambda>e. \<not> is_log e) es" by simp
  note unfold = notify_resolved [OF assms, of self data doc_data]
  show ?thesis
  proof (cases r)
    case None
    with nt notify_try_success [of env self data doc_data posted]
    obtain response where p: "posted = Inr response" and m: "\<not> isl (message_id response)"
      by auto
    from make_post_request_Inr [OF mp [unfolded p]] m message_id_non_json
    obtain rr where "flag = Some rr" "response_json rr = Inr response" by metis
    with mp nt None count_log_append [OF es] show ?thesis
      by (simp add: unfold ebind_def)
  next
    case (Some e)
    obtain msg raised where "notify_except flag e = (msg, raised)"
      by (cases "notify_except flag e")
    with mp nt Some count_log_append [OF es] show ?thesis
      by (simp add: unfold)
  qed
qed

lemma notify_error_status:
  assumes "(if truthy template_account then find_account env (the template_account)
            else outgoing_account env) \<noteq> None"
    and "get_password_error env = None"
    and "provider_exchange env = Responded r" and "\<not> response_ok r"
  shows "notify env self data doc_data template_account =
     ([InsertLog (ErrorText (Raised ''HTTPError''))], None)"
  using assms(3,4)
  by (simp add: notify_resolved [OF assms(1,2)] make_post_request_def notify_try_def
      notify_except_def ebind_def)

text \<open>
  C7. Where the claim fails: the provider answers the request with status 400 and the error
  body \<open>{"error": {"message": "Invalid parameter", "code": 100}}\<close>. One outcome log is
  written, but its error is the text of the exception, not the message of the body: the
  \<open>except\<close> block reads the body only when the response is true, which a response with an
  error status is not.
\<close>

theorem notify_rejected_logs_exception_text:
  "provider_exchange rejected_env = Responded rejected_response \<and>
   ebind (ebind (response_json rejected_response) (\<lambda>j. py_item j (lit ''error'')))
     (\<lambda>e. py_item e (lit ''message'')) = Inr (JStr (lit ''Invalid parameter'')) \<and>
   notify rejected_env example_notification example_message None None =
     ([InsertLog (ErrorText (Raised ''HTTPError''))], None)"
proof -
  have "notify rejected_env example_notification example_message None None =
     ([InsertLog (ErrorText (Raised ''HTTPError''))], None)"
    by (rule notify_error_status [where r = rejected_response])
       (simp_all add: rejected_env_def rejected_response_def truthy_def response_ok_def)
  then show ?thesis
    by (simp add: rejected_env_def rejected_response_def response_json_def ebind_def)
qed

end
